theory Spec2Isabelle
  imports Complex_Main
begin

section \<open>JavaScript values used by the editor\<close>

text \<open>
  Segment ids are integral JavaScript numbers (data model: \<open>segment_id: int\<close>). A number
  that reaches the code as an id is either such an integer or \<open>NaN\<close> (what \<open>parseInt\<close>
  returns on a string with no digits). Times are JavaScript numbers as well; they are
  modelled as mathematical reals, so rounding of binary floating point is outside the model.
\<close>

datatype jsnum = Num int | NaN

text \<open>The argument of \<open>selectSegment\<close>: a number, or a string (a region id).\<close>

datatype jsarg = ArgNum jsnum | ArgStr string

text \<open>Truthiness of a number: \<open>0\<close> and \<open>NaN\<close> are falsy.\<close>

fun truthy :: "jsnum \<Rightarrow> bool" where
  "truthy (Num n) = (n \<noteq> 0)"
| "truthy NaN = False"

text \<open>
  \<open>s.segment_id === id\<close> and \<open>s.segment_id == id\<close> with a numeric \<open>segment_id\<close> on the
  left and a number on the right: both compare the numeric values, and \<open>NaN\<close> equals nothing.
\<close>

fun id_eq :: "int \<Rightarrow> jsnum \<Rightarrow> bool" where
  "id_eq n (Num m) = (n = m)"
| "id_eq n NaN = False"

text \<open>Strict equality of two numbers, as \<open>Array.prototype.indexOf\<close> uses it.\<close>

fun strict_eq :: "jsnum \<Rightarrow> jsnum \<Rightarrow> bool" where
  "strict_eq (Num a) (Num b) = (a = b)"
| "strict_eq _ _ = False"

subsection \<open>\<open>parseInt\<close> and \<open>Number.prototype.toString\<close> on integers\<close>

definition is_ws :: "char \<Rightarrow> bool" where
  "is_ws c = (c \<in> set [CHR '' '', CHR 0x09, CHR 0x0A, CHR 0x0B, CHR 0x0C, CHR 0x0D])"

definition is_digit :: "char \<Rightarrow> bool" where
  "is_digit c = (48 \<le> (of_char c :: nat) \<and> (of_char c :: nat) \<le> 57)"

definition digit_val :: "char \<Rightarrow> nat" where
  "digit_val c = of_char c - 48"

definition is_hex :: "char \<Rightarrow> bool" where
  "is_hex c = (is_digit c
     \<or> (97 \<le> (of_char c :: nat) \<and> (of_char c :: nat) \<le> 102)
     \<or> (65 \<le> (of_char c :: nat) \<and> (of_char c :: nat) \<le> 70))"

definition hex_val :: "char \<Rightarrow> nat" where
  "hex_val c = (if is_digit c then of_char c - 48
                else if 97 \<le> (of_char c :: nat) then of_char c - 87
                else of_char c - 55)"

text \<open>
  \<open>parseInt(s)\<close> with no radix argument: leading white space is skipped, one sign is
  read, a \<open>0x\<close>/\<open>0X\<close> prefix selects radix 16, then the longest prefix of digits is the
  value; with no digit the result is \<open>NaN\<close>. (Only the ASCII white space characters are
  recognised here.)
\<close>

definition parseInt :: "string \<Rightarrow> jsnum" where
  "parseInt s =
     (let s1 = dropWhile is_ws s;
          neg = (case s1 of [] \<Rightarrow> False | c # _ \<Rightarrow> c = CHR ''-'');
          s2 = (case s1 of [] \<Rightarrow> [] | c # r \<Rightarrow> if c = CHR ''-'' \<or> c = CHR ''+'' then r else s1);
          hex = (case s2 of a # b # _ \<Rightarrow> a = CHR ''0'' \<and> (b = CHR ''x'' \<or> b = CHR ''X'') | _ \<Rightarrow> False);
          ds = (if hex then takeWhile is_hex (drop 2 s2) else takeWhile is_digit s2);
          v = (if hex then foldl (\<lambda>acc c. acc * 16 + hex_val c) 0 ds
               else foldl (\<lambda>acc c. acc * 10 + digit_val c) 0 ds)
      in if ds = [] then NaN else Num (if neg then - int v else int v))"

definition digit_char :: "nat \<Rightarrow> char" where
  "digit_char d = char_of (48 + d)"

fun digits_of :: "nat \<Rightarrow> string" where
  "digits_of n = (if n < 10 then [digit_char n] else digits_of (n div 10) @ [digit_char (n mod 10)])"

declare digits_of.simps [simp del]

text \<open>\<open>n.toString()\<close> for an integral number \<open>n\<close>.\<close>

definition toString :: "int \<Rightarrow> string" where
  "toString n = (if n < 0 then CHR ''-'' # digits_of (nat (- n)) else digits_of (nat n))"

section \<open>Data model\<close>

text \<open>
  A value stored in a property that the data model does not declare, or sent as a field of
  a request body: \<open>undefined\<close>, a number, \<open>NaN\<close> or a string.
\<close>

datatype jsval = VUndef | VNum real | VNaN | VStr string

text \<open>
  A segment as the backend delivers it, with the session-local flag \<open>markedForDeletion\<close>
  (absent, hence falsy, on a freshly loaded segment). \<open>start_time\<close> and \<open>end_time\<close> are
  not fields of the data model: they are the properties that the table time editor of
  \<^verbatim>\<open>src/frontend/app.js\<close> creates on the object, \<open>VUndef\<close> until then.
\<close>

record segment =
  segment_id :: int
  chunk_id :: int
  start_sec :: real
  end_sec :: real
  seg_text :: string
  gap_type :: string
  markedForDeletion :: bool
  start_time :: jsval
  end_time :: jsval

record chunk =
  chunk_no :: int
  chunk_start_time :: real
  file_path :: string

text \<open>A region of the waveform overlay as the region events deliver it.\<close>

record region =
  region_id :: string
  region_start :: real
  region_end :: real

text \<open>
  The objects pushed on \<open>state.undoStack\<close>, one constructor per shape that the source builds:
  \<^item> \<open>EditTime\<close>: \<open>{segmentId, oldStart, oldEnd}\<close> (\<open>handleRegionUpdate\<close>);
  \<^item> \<open>EditText\<close>: \<open>{segmentId, oldText}\<close> (\<open>startTextEdit\<close>);
  \<^item> \<open>EditTableTime\<close>: \<open>{segmentId, time}\<close> (\<open>startTimeEdit\<close>, app.js only);
  \<^item> \<open>DeleteMark\<close>: \<open>{type: 'delete', segmentId}\<close> (\<open>deleteSelectedSegment\<close>, app.js);
  \<^item> \<open>DeleteRemoved\<close>: \<open>{type: 'delete', segment, index}\<close> (\<open>deleteSelectedSegment\<close>,
    \<^verbatim>\<open>src/unnamed/part_000\<close>).
\<close>

datatype undo_entry =
    EditTime jsnum real real
  | EditText jsnum string
  | EditTableTime jsnum string
  | DeleteMark jsnum
  | DeleteRemoved segment nat

text \<open>\<open>item.type === 'delete'\<close>\<close>

fun is_delete :: "undo_entry \<Rightarrow> bool" where
  "is_delete (DeleteMark _) = True"
| "is_delete (DeleteRemoved _ _) = True"
| "is_delete _ = False"

text \<open>\<open>lastChange.segmentId\<close>; \<open>None\<close> is \<open>undefined\<close>.\<close>

fun entry_segmentId :: "undo_entry \<Rightarrow> jsnum option" where
  "entry_segmentId (EditTime i _ _) = Some i"
| "entry_segmentId (EditText i _) = Some i"
| "entry_segmentId (EditTableTime i _) = Some i"
| "entry_segmentId (DeleteMark i) = Some i"
| "entry_segmentId (DeleteRemoved _ _) = None"

text \<open>The requests sent to the backend: \<open>PUT /api/segments/<id>\<close> with the JSON body, and
  \<open>DELETE /api/segments/<id>\<close>.\<close>

datatype request = PUT jsnum "(string \<times> jsval) list" | DELETE jsnum

text \<open>
  The text of \<open>elements.selectedInfo\<close>. \<open>InfoSelected id d m\<close> stands for
  \<open>Selected: Segment <id> | Duration: <d.toFixed(2)>s\<close>, followed by
  \<open>(marked for deletion)\<close> when \<open>m\<close>; the duration is kept as the number.
\<close>

datatype info = InfoNone | InfoSelected jsnum real bool | InfoMarkedForDeletion
  | InfoDeleted | InfoRestored jsnum

text \<open>What an operation can end with instead of a state: a \<open>TypeError\<close> thrown by a
  property read on \<open>null\<close> or \<open>undefined\<close>, or the rejection of a request that is awaited
  outside any \<open>try\<close>.\<close>

datatype js_error = TypeError | Rejected

text \<open>
  The global \<open>state\<close> object, the controls of \<open>elements\<close> that the operations write, and
  the log of the requests issued so far. The waveform, its regions and the table rows are
  views rebuilt from \<open>segments\<close> and are not part of the state. \<open>finalizeBtn_disabled = None\<close>
  means that the page has no element \<open>finalizeBtn\<close>.
\<close>

record state =
  chunks :: "chunk list"
  segments :: "segment list"
  currentChunkId :: int
  currentChunk :: "chunk option"
  selectedSegmentId :: "jsnum option"
  undoStack :: "undo_entry list"
  deletedSegments :: "jsnum list"
  hasUnsavedChanges :: bool
  status :: "string \<times> string"
  undoBtn_disabled :: bool
  deleteBtn_disabled :: bool
  finalizeBtn_disabled :: "bool option"
  selectedInfo :: info
  requests :: "request list"

section \<open>Array helpers\<close>

text \<open>\<open>Array.prototype.findIndex\<close>; \<open>None\<close> is \<open>-1\<close>. \<open>xs.find(p)\<close> is the element at
  that index, and a write through the object found is a write at that index.\<close>

fun findIndex :: "('a \<Rightarrow> bool) \<Rightarrow> 'a list \<Rightarrow> nat option" where
  "findIndex P [] = None"
| "findIndex P (x # xs) = (if P x then Some 0 else map_option Suc (findIndex P xs))"

text \<open>\<open>xs.splice(i, 1)\<close> and \<open>xs.splice(i, 0, v)\<close> (an index beyond the end is the end).\<close>

definition splice_remove :: "nat \<Rightarrow> 'a list \<Rightarrow> 'a list" where
  "splice_remove i xs = take i xs @ drop (Suc i) xs"

definition splice_insert :: "nat \<Rightarrow> 'a \<Rightarrow> 'a list \<Rightarrow> 'a list" where
  "splice_insert i v xs = take i xs @ [v] @ drop i xs"

text \<open>\<open>const idx = xs.indexOf(v); if (idx !== -1) xs.splice(idx, 1)\<close>\<close>

definition remove_indexOf :: "jsnum \<Rightarrow> jsnum list \<Rightarrow> jsnum list" where
  "remove_indexOf v xs =
     (case findIndex (\<lambda>x. strict_eq x v) xs of None \<Rightarrow> xs | Some idx \<Rightarrow> splice_remove idx xs)"

section \<open>Status line and persistence\<close>

definition setStatus :: "string \<Rightarrow> string \<Rightarrow> state \<Rightarrow> state" where
  "setStatus message type st = st\<lparr>status := (message, type)\<rparr>"

text \<open>\<open>JSON.stringify\<close> of an object drops the properties whose value is \<open>undefined\<close>
  (and writes \<open>NaN\<close> as \<open>null\<close>; the model keeps \<open>VNaN\<close>).\<close>

definition stringify :: "(string \<times> jsval) list \<Rightarrow> (string \<times> jsval) list" where
  "stringify updates = filter (\<lambda>kv. snd kv \<noteq> VUndef) updates"

text \<open>
  \<open>saveSegmentUpdate\<close>. The parameter \<open>ok\<close> is the outcome of the request: whether the
  promise of \<open>api.updateSegment\<close> resolves. Every asynchronous function is modelled as
  running to its end with the outcomes given; interleavings with other events are outside
  the model.
\<close>

definition saveSegmentUpdate :: "bool \<Rightarrow> jsnum \<Rightarrow> (string \<times> jsval) list \<Rightarrow> state \<Rightarrow> state" where
  "saveSegmentUpdate ok segmentId updates st =
     (let st1 = setStatus ''Saving...'' ''saving'' st;
          st2 = st1\<lparr>requests := requests st1 @ [PUT segmentId (stringify updates)]\<rparr>
      in if ok then setStatus ''Saved'' ''saved'' st2
         else setStatus ''Save failed'' ''error'' st2)"

text \<open>
  The loop \<open>for (const id of ids) await api.deleteSegment(id)\<close> inside a \<open>try\<close>:
  \<open>del_ok k\<close> tells whether the \<open>k\<close>-th call of the run resolves. The result is the list
  of the requests issued and whether the loop ran to its end.
\<close>

fun deleteLoop :: "(nat \<Rightarrow> bool) \<Rightarrow> nat \<Rightarrow> jsnum list \<Rightarrow> request list \<times> bool" where
  "deleteLoop del_ok k [] = ([], True)"
| "deleteLoop del_ok k (segmentId # rest) =
     (if del_ok k
      then (let r = deleteLoop del_ok (Suc k) rest in (DELETE segmentId # fst r, snd r))
      else ([DELETE segmentId], False))"

definition plural :: "nat \<Rightarrow> string" where
  "plural n = (if n > 1 then ''s'' else [])"

text \<open>\<open>saveAll\<close> (the same text in both files).\<close>

definition saveAll :: "(nat \<Rightarrow> bool) \<Rightarrow> state \<Rightarrow> state" where
  "saveAll del_ok st =
     (let deletedCount = length (deletedSegments st) in
      if deletedCount = 0
      then (setStatus ''All changes saved'' ''saved'' st)\<lparr>hasUnsavedChanges := False\<rparr>
      else
        (let st1 = setStatus ''Saving deletions...'' ''saving'' st;
             run = deleteLoop del_ok 0 (deletedSegments st1);
             st2 = st1\<lparr>requests := requests st1 @ fst run\<rparr>
         in if snd run
            then
              (let st3 = st2\<lparr>deletedSegments := []\<rparr>;
                   st4 = st3\<lparr>undoStack := filter (\<lambda>item. \<not> is_delete item) (undoStack st3)\<rparr>;
                   st5 = st4\<lparr>undoBtn_disabled := (length (undoStack st4) = 0)\<rparr>;
                   st6 = setStatus (''Saved ('' @ digits_of deletedCount @ '' segment''
                                      @ plural deletedCount @ '' deleted)'') ''saved'' st5
               in st6\<lparr>hasUnsavedChanges := False\<rparr>)
            else setStatus ''Save failed'' ''error'' st2))"

section \<open>Zoom and centring\<close>

text \<open>
  The numbers of the zoom arithmetic: a finite number (a real; rounding is not modelled),
  \<open>+Infinity\<close>, \<open>-Infinity\<close> or \<open>NaN\<close>. The model has one zero; it stands for \<open>+0\<close>,
  which is what a difference of two equal numbers, a duration of no audio and a width of
  no pixels are.
\<close>

datatype jsfloat = Fin real | PInf | NInf | FNaN

text \<open>The operators \<open>/\<close>, \<open>*\<close>, \<open>-\<close> and \<open>Math.min\<close>, \<open>Math.max\<close> on these numbers.\<close>

fun js_div :: "jsfloat \<Rightarrow> jsfloat \<Rightarrow> jsfloat" where
  "js_div (Fin a) (Fin b) =
     (if b \<noteq> 0 then Fin (a / b) else if a > 0 then PInf else if a < 0 then NInf else FNaN)"
| "js_div (Fin a) PInf = Fin 0"
| "js_div (Fin a) NInf = Fin 0"
| "js_div PInf (Fin b) = (if b \<ge> 0 then PInf else NInf)"
| "js_div NInf (Fin b) = (if b \<ge> 0 then NInf else PInf)"
| "js_div _ _ = FNaN"

fun js_mul :: "jsfloat \<Rightarrow> jsfloat \<Rightarrow> jsfloat" where
  "js_mul (Fin a) (Fin b) = Fin (a * b)"
| "js_mul PInf (Fin b) = (if b > 0 then PInf else if b < 0 then NInf else FNaN)"
| "js_mul NInf (Fin b) = (if b > 0 then NInf else if b < 0 then PInf else FNaN)"
| "js_mul (Fin a) PInf = (if a > 0 then PInf else if a < 0 then NInf else FNaN)"
| "js_mul (Fin a) NInf = (if a > 0 then NInf else if a < 0 then PInf else FNaN)"
| "js_mul PInf PInf = PInf"
| "js_mul NInf NInf = PInf"
| "js_mul PInf NInf = NInf"
| "js_mul NInf PInf = NInf"
| "js_mul _ _ = FNaN"

fun js_sub :: "jsfloat \<Rightarrow> jsfloat \<Rightarrow> jsfloat" where
  "js_sub (Fin a) (Fin b) = Fin (a - b)"
| "js_sub PInf (Fin b) = PInf"
| "js_sub NInf (Fin b) = NInf"
| "js_sub (Fin a) PInf = NInf"
| "js_sub (Fin a) NInf = PInf"
| "js_sub PInf NInf = PInf"
| "js_sub NInf PInf = NInf"
| "js_sub _ _ = FNaN"

fun js_min :: "jsfloat \<Rightarrow> jsfloat \<Rightarrow> jsfloat" where
  "js_min (Fin a) (Fin b) = Fin (min a b)"
| "js_min FNaN _ = FNaN"
| "js_min _ FNaN = FNaN"
| "js_min NInf _ = NInf"
| "js_min _ NInf = NInf"
| "js_min PInf b = b"
| "js_min a PInf = a"

fun js_max :: "jsfloat \<Rightarrow> jsfloat \<Rightarrow> jsfloat" where
  "js_max (Fin a) (Fin b) = Fin (max a b)"
| "js_max FNaN _ = FNaN"
| "js_max _ FNaN = FNaN"
| "js_max PInf _ = PInf"
| "js_max _ PInf = PInf"
| "js_max NInf b = b"
| "js_max a NInf = a"

text \<open>\<open>centerOnTime\<close>: the scroll offset handed to the waveform, with
  \<open>totalDuration = state.wavesurfer.getDuration()\<close>.\<close>

definition centerOnTime :: "jsfloat \<Rightarrow> jsfloat \<Rightarrow> real \<Rightarrow> real \<Rightarrow> jsfloat" where
  "centerOnTime timeRatio pxPerSec containerWidth totalDuration =
     (let totalWidth = js_mul pxPerSec (Fin totalDuration);
          centerPx = js_mul timeRatio totalWidth;
          targetScroll = js_sub centerPx (Fin (containerWidth / 2));
          maxScroll = js_max (Fin 0) (js_sub totalWidth (Fin containerWidth));
          clampedScroll = js_max (Fin 0) (js_min targetScroll maxScroll)
      in clampedScroll)"

text \<open>
  The arithmetic of \<open>zoomToSegment\<close> from \<open>localStart\<close> and \<open>localEnd\<close> on: the zoom passed
  to \<open>wavesurfer.zoom\<close>, the scroll offset of \<open>centerOnTime\<close> and the ratio passed to
  \<open>wavesurfer.seekTo\<close>. The times of the segment, the duration and the width are finite.
\<close>

definition zoomToSegment_calc :: "real \<Rightarrow> real \<Rightarrow> real \<Rightarrow> real \<Rightarrow> jsfloat \<times> jsfloat \<times> jsfloat" where
  "zoomToSegment_calc localStart localEnd totalDuration containerWidth =
     (let segmentDuration = localEnd - localStart;
          targetRatio = 0.5;
          visibleDuration = segmentDuration / targetRatio;
          pxPerSec = js_div (Fin containerWidth) (Fin visibleDuration);
          minZoom = js_div (Fin containerWidth) (Fin totalDuration);
          maxZoom = Fin 500;
          clampedPxPerSec = js_max minZoom (js_min maxZoom pxPerSec);
          segmentCenter = (localStart + localEnd) / 2;
          centerRatio = js_div (Fin segmentCenter) (Fin totalDuration)
      in (clampedPxPerSec,
          centerOnTime centerRatio clampedPxPerSec containerWidth totalDuration,
          js_div (Fin localStart) (Fin totalDuration)))"

datatype zoom_outcome = Skipped | Zoomed jsfloat jsfloat jsfloat

text \<open>
  \<open>zoomToSegment\<close>, with the two readings it takes from the page as parameters:
  \<open>totalDuration = state.wavesurfer.getDuration()\<close> and
  \<open>containerWidth = elements.waveform.clientWidth\<close>.
\<close>

definition zoomToSegment :: "real \<Rightarrow> real \<Rightarrow> jsnum \<Rightarrow> state \<Rightarrow> zoom_outcome" where
  "zoomToSegment totalDuration containerWidth segmentId st =
     (case findIndex (\<lambda>s. id_eq (segment_id s) segmentId) (segments st) of
        None \<Rightarrow> Skipped
      | Some i \<Rightarrow>
          (case currentChunk st of
             None \<Rightarrow> Skipped
           | Some c \<Rightarrow>
               (let segment = segments st ! i;
                    chunkStart = chunk_start_time c;
                    localStart = start_sec segment - chunkStart;
                    localEnd = end_sec segment - chunkStart
                in case zoomToSegment_calc localStart localEnd totalDuration containerWidth of
                     (z, sc, sk) \<Rightarrow> Zoomed z sc sk)))"

text \<open>
  The range that the specification gives for the zoom, in its words: the zoom is in
  \<open>[fitAllZoom, 500]\<close>, with \<open>fitAllZoom = viewportWidth / totalDuration\<close>.
\<close>

definition spec_zoom_range :: "real \<Rightarrow> real \<Rightarrow> jsfloat \<Rightarrow> bool" where
  "spec_zoom_range viewportWidth totalDuration zoom =
     (case zoom of
        Fin z \<Rightarrow> viewportWidth / totalDuration \<le> z \<and> z \<le> 500
      | _ \<Rightarrow> False)"

section \<open>Selection\<close>

text \<open>The first line of \<open>selectSegment\<close>:
  \<open>typeof segmentId === 'string' ? parseInt(segmentId) : segmentId\<close>.\<close>

fun normalize_id :: "jsarg \<Rightarrow> jsnum" where
  "normalize_id (ArgStr s) = parseInt s"
| "normalize_id (ArgNum v) = v"

text \<open>
  \<open>selectSegment\<close> of \<^verbatim>\<open>src/frontend/app.js\<close>. \<open>highlightRegion\<close>, \<open>zoomToSegment\<close> and the
  scrolling of the table row change the views only; an exception of the first two is
  caught. The page has the delete button that \<open>document.getElementById('deleteBtn')\<close>
  looks up (\<open>elements.deleteBtn\<close> is used without a check elsewhere).
\<close>

definition selectSegment :: "jsarg \<Rightarrow> state \<Rightarrow> state" where
  "selectSegment segmentId st =
     (let id = normalize_id segmentId;
          st1 = st\<lparr>selectedSegmentId := Some id\<rparr>
      in case findIndex (\<lambda>s. id_eq (segment_id s) id) (segments st1) of
           None \<Rightarrow> st1\<lparr>deleteBtn_disabled := True\<rparr>
         | Some i \<Rightarrow>
             (let segment = segments st1 ! i;
                  st2 = st1\<lparr>deleteBtn_disabled := markedForDeletion segment\<rparr>
              in st2\<lparr>selectedInfo :=
                       InfoSelected id (end_sec segment - start_sec segment)
                         (markedForDeletion segment)\<rparr>))"

text \<open>\<open>selectSegment\<close> of \<^verbatim>\<open>src/unnamed/part_000\<close>.\<close>

definition selectSegment_part000 :: "jsarg \<Rightarrow> state \<Rightarrow> state" where
  "selectSegment_part000 segmentId st =
     (let id = normalize_id segmentId;
          st1 = st\<lparr>selectedSegmentId := Some id\<rparr>
      in case findIndex (\<lambda>s. id_eq (segment_id s) id) (segments st1) of
           Some i \<Rightarrow>
             (let segment = segments st1 ! i;
                  st2 = st1\<lparr>selectedInfo :=
                              InfoSelected id (end_sec segment - start_sec segment) False\<rparr>
              in st2\<lparr>deleteBtn_disabled := False\<rparr>)
         | None \<Rightarrow> st1\<lparr>deleteBtn_disabled := True\<rparr>)"

section \<open>Edits\<close>

text \<open>\<open>handleRegionUpdate\<close> (the same text in both files). Reading
  \<open>state.currentChunk.start_time\<close> with no chunk loaded throws.\<close>

definition handleRegionUpdate :: "bool \<Rightarrow> region \<Rightarrow> state \<Rightarrow> js_error + state" where
  "handleRegionUpdate ok region st =
     (let segmentId = parseInt (region_id region) in
      case findIndex (\<lambda>s. id_eq (segment_id s) segmentId) (segments st) of
        None \<Rightarrow> Inr st
      | Some i \<Rightarrow>
          (case currentChunk st of
             None \<Rightarrow> Inl TypeError
           | Some c \<Rightarrow>
               (let segment = segments st ! i;
                    chunkStart = chunk_start_time c;
                    newStartSec = region_start region + chunkStart;
                    newEndSec = region_end region + chunkStart;
                    st1 = st\<lparr>undoStack := undoStack st
                                @ [EditTime segmentId (start_sec segment) (end_sec segment)]\<rparr>;
                    st2 = st1\<lparr>undoBtn_disabled := False\<rparr>;
                    st3 = st2\<lparr>segments := (segments st2)
                                [i := segment\<lparr>start_sec := newStartSec, end_sec := newEndSec\<rparr>]\<rparr>;
                    st4 = st3\<lparr>hasUnsavedChanges := True\<rparr>
                in Inr (saveSegmentUpdate ok segmentId
                          [(''start_sec'', VNum newStartSec), (''end_sec'', VNum newEndSec)] st4))))"

text \<open>
  The text editor of a table row (the same text in both files). The handlers hold the
  segment object of the row; \<open>i\<close> is the index of that object in \<open>state.segments\<close>
  (the table is rendered again whenever the array is replaced or spliced; an index
  outside the array stands for no row, and then nothing happens).
  \<open>startTextEdit\<close> fixes \<open>originalText = segment.text || ''\<close>, which is the text itself
  for a string; \<open>finishEdit(save)\<close> runs on blur, Enter (\<open>save = true\<close>) or Escape, with
  \<open>newText\<close> the content of the input.
\<close>

definition startTextEdit :: "nat \<Rightarrow> state \<Rightarrow> string" where
  "startTextEdit i st = seg_text (segments st ! i)"

definition finishEdit_text :: "bool \<Rightarrow> bool \<Rightarrow> string \<Rightarrow> string \<Rightarrow> nat \<Rightarrow> state \<Rightarrow> state" where
  "finishEdit_text ok save originalText newText i st =
     (if i < length (segments st) \<and> save \<and> newText \<noteq> originalText
      then
        (let segment = segments st ! i;
             st1 = st\<lparr>undoStack := undoStack st @ [EditText (Num (segment_id segment)) originalText]\<rparr>;
             st2 = st1\<lparr>undoBtn_disabled := False\<rparr>;
             st3 = st2\<lparr>segments := (segments st2)[i := segment\<lparr>seg_text := newText\<rparr>]\<rparr>
         in saveSegmentUpdate ok (Num (segment_id segment)) [(''text'', VStr newText)] st3)
      else st)"

text \<open>
  The time editor of a table row (\<^verbatim>\<open>src/frontend/app.js\<close> only). \<open>toFixed2\<close> stands for
  \<open>x.toFixed(2)\<close> and \<open>parseFloat\<close> for the global function of that name; both belong
  to the platform and are parameters. \<open>isStart\<close> tells whether the cell is the start
  column; \<open>startTimeEdit\<close> fixes \<open>originalTime\<close>.
\<close>

definition startTimeEdit :: "bool \<Rightarrow> nat \<Rightarrow> state \<Rightarrow> real" where
  "startTimeEdit isStart i st =
     (if isStart then start_sec (segments st ! i) else end_sec (segments st ! i))"

definition finishEdit_time ::
  "(real \<Rightarrow> string) \<Rightarrow> (string \<Rightarrow> jsval) \<Rightarrow> bool \<Rightarrow> bool \<Rightarrow> bool \<Rightarrow> real \<Rightarrow> string \<Rightarrow> nat \<Rightarrow> state \<Rightarrow> state" where
  "finishEdit_time toFixed2 parseFloat ok save isStart originalTime newTime i st =
     (if i < length (segments st) \<and> save \<and> newTime \<noteq> toFixed2 originalTime
      then
        (let segment = segments st ! i;
             st1 = st\<lparr>undoStack := undoStack st
                         @ [EditTableTime (Num (segment_id segment)) (toFixed2 originalTime)]\<rparr>;
             st2 = st1\<lparr>undoBtn_disabled := False\<rparr>;
             segment' = (if isStart then segment\<lparr>start_time := parseFloat newTime\<rparr>
                         else segment\<lparr>end_time := parseFloat newTime\<rparr>);
             st3 = st2\<lparr>segments := (segments st2)[i := segment']\<rparr>
         in saveSegmentUpdate ok (Num (segment_id segment))
              [(''start_time'', start_time segment'), (''end_time'', end_time segment')] st3)
      else st)"

section \<open>Deleting\<close>




text \<open>\<open>finalizeDeletes\<close> (\<^verbatim>\<open>src/frontend/app.js\<close> only).\<close>

definition finalizeDeletes :: "(nat \<Rightarrow> bool) \<Rightarrow> state \<Rightarrow> state" where
  "finalizeDeletes del_ok st =
     (let deleted = filter markedForDeletion (segments st) in
      if length deleted = 0 then setStatus ''No segments to finalize'' ''saved'' st
      else
        (let st1 = setStatus ''Finalizing deletions...'' ''saving'' st;
             run = deleteLoop del_ok 0 (map (\<lambda>s. Num (segment_id s)) deleted);
             st2 = st1\<lparr>requests := requests st1 @ fst run\<rparr>
         in if snd run
            then
              (let st3 = st2\<lparr>segments := filter (\<lambda>s. \<not> markedForDeletion s) (segments st2)\<rparr>;
                   st4 = st3\<lparr>deletedSegments := []\<rparr>;
                   st5 = st4\<lparr>undoStack := filter (\<lambda>item. \<not> is_delete item) (undoStack st4)\<rparr>;
                   st6 = st5\<lparr>undoBtn_disabled := (length (undoStack st5) = 0)\<rparr>;
                   st7 = st6\<lparr>finalizeBtn_disabled :=
                               map_option (\<lambda>_. True) (finalizeBtn_disabled st6)\<rparr>;
                   st8 = setStatus (''Deleted '' @ digits_of (length deleted) @ '' segment''
                                      @ plural (length deleted)) ''saved'' st7
               in st8\<lparr>hasUnsavedChanges := False\<rparr>)
            else setStatus ''Failed to delete segments'' ''error'' st2))"

section \<open>Loading a chunk\<close>


section \<open>Undo\<close>

text \<open>\<open>'oldStart' in lastChange\<close> with the two old times, and \<open>'oldText' in lastChange\<close>
  with the old text.\<close>

fun entry_oldTimes :: "undo_entry \<Rightarrow> (real \<times> real) option" where
  "entry_oldTimes (EditTime _ oldStart oldEnd) = Some (oldStart, oldEnd)"
| "entry_oldTimes _ = None"

fun entry_oldText :: "undo_entry \<Rightarrow> string option" where
  "entry_oldText (EditText _ oldText) = Some oldText"
| "entry_oldText _ = None"

text \<open>
  The \<open>else\<close> branch of \<open>undo\<close> (the same text in both files, each calling the
  \<open>selectSegment\<close> of its file, here the parameter \<open>select\<close>). \<open>st\<close> is the state after
  the pop. \<open>renderTable\<close> and \<open>createRegions\<close> rebuild the views.
\<close>

definition undo_edit ::
  "(jsarg \<Rightarrow> state \<Rightarrow> state) \<Rightarrow> bool \<Rightarrow> undo_entry \<Rightarrow> state \<Rightarrow> state" where
  "undo_edit select ok lastChange st =
     (let notFound = st\<lparr>undoBtn_disabled := (length (undoStack st) = 0)\<rparr> in
      case entry_segmentId lastChange of
        None \<Rightarrow> notFound
      | Some segmentId \<Rightarrow>
          (case findIndex (\<lambda>s. id_eq (segment_id s) segmentId) (segments st) of
             None \<Rightarrow> notFound
           | Some i \<Rightarrow>
               (let segment = segments st ! i;
                    segment1 = (case entry_oldTimes lastChange of
                                  Some (oldStart, oldEnd) \<Rightarrow>
                                    segment\<lparr>start_sec := oldStart, end_sec := oldEnd\<rparr>
                                | None \<Rightarrow> segment);
                    updates1 = (case entry_oldTimes lastChange of
                                  Some (oldStart, oldEnd) \<Rightarrow>
                                    [(''start_sec'', VNum oldStart), (''end_sec'', VNum oldEnd)]
                                | None \<Rightarrow> []);
                    segment2 = (case entry_oldText lastChange of
                                  Some oldText \<Rightarrow> segment1\<lparr>seg_text := oldText\<rparr>
                                | None \<Rightarrow> segment1);
                    updates2 = (case entry_oldText lastChange of
                                  Some oldText \<Rightarrow> updates1 @ [(''text'', VStr oldText)]
                                | None \<Rightarrow> updates1);
                    st1 = st\<lparr>segments := (segments st)[i := segment2]\<rparr>;
                    st2 = (case selectedSegmentId st1 of
                             None \<Rightarrow> st1
                           | Some sel \<Rightarrow> if truthy sel then select (ArgNum sel) st1 else st1);
                    st3 = saveSegmentUpdate ok segmentId updates2 st2
                in st3\<lparr>undoBtn_disabled := (length (undoStack st3) = 0)\<rparr>)))"

text \<open>The body of \<open>if (segment) { ... }\<close> in the delete branch of \<open>undo\<close>,
  \<^verbatim>\<open>src/frontend/app.js\<close>, for the segment found at index \<open>i\<close>.\<close>

definition undo_unmark :: "jsnum \<Rightarrow> nat \<Rightarrow> state \<Rightarrow> state" where
  "undo_unmark segmentId i st =
     (let segment = segments st ! i;
          st1 = st\<lparr>segments := (segments st)[i := segment\<lparr>markedForDeletion := False\<rparr>]\<rparr>;
          st2 = st1\<lparr>deletedSegments := remove_indexOf segmentId (deletedSegments st1)\<rparr>;
          hasDeleted = list_ex markedForDeletion (segments st2);
          st3 = st2\<lparr>finalizeBtn_disabled :=
                      map_option (\<lambda>_. \<not> hasDeleted) (finalizeBtn_disabled st2)\<rparr>;
          st4 = selectSegment (ArgNum segmentId) st3
      in st4\<lparr>selectedInfo := InfoRestored segmentId\<rparr>)"

text \<open>
  \<open>undo\<close> of \<^verbatim>\<open>src/frontend/app.js\<close>. \<open>ok\<close> is the outcome of the corrective \<open>PUT\<close>.
  An entry with no \<open>segmentId\<close> makes \<open>s.segment_id == undefined\<close> false for every segment.
\<close>

definition undo :: "bool \<Rightarrow> state \<Rightarrow> state" where
  "undo ok st =
     (if length (undoStack st) = 0 then st
      else
        (let lastChange = last (undoStack st);
             st0 = st\<lparr>undoStack := butlast (undoStack st)\<rparr>
         in if is_delete lastChange
            then
              (let st1 =
                 (case entry_segmentId lastChange of
                    None \<Rightarrow> st0
                  | Some segmentId \<Rightarrow>
                      (case findIndex (\<lambda>s. id_eq (segment_id s) segmentId) (segments st0) of
                         None \<Rightarrow> st0
                       | Some i \<Rightarrow> undo_unmark segmentId i st0))
               in st1\<lparr>undoBtn_disabled := (length (undoStack st1) = 0)\<rparr>)
            else undo_edit selectSegment ok lastChange st0))"

text \<open>
  \<open>undo\<close> of \<^verbatim>\<open>src/unnamed/part_000\<close>. Its delete branch reads
  \<open>lastChange.segment.segment_id\<close>, which throws on an entry that has no \<open>segment\<close>.
\<close>

definition undo_part000 :: "bool \<Rightarrow> state \<Rightarrow> js_error + state" where
  "undo_part000 ok st =
     (if length (undoStack st) = 0 then Inr st
      else
        (let lastChange = last (undoStack st);
             st0 = st\<lparr>undoStack := butlast (undoStack st)\<rparr>
         in if is_delete lastChange
            then
              (case lastChange of
                 DeleteRemoved restoredSegment index \<Rightarrow>
                   (let st1 = st0\<lparr>deletedSegments :=
                                   remove_indexOf (Num (segment_id restoredSegment))
                                     (deletedSegments st0)\<rparr>;
                        st2 = st1\<lparr>segments := splice_insert index restoredSegment (segments st1)\<rparr>;
                        st3 = selectSegment_part000
                                (ArgNum (Num (segment_id restoredSegment))) st2;
                        st4 = st3\<lparr>selectedInfo := InfoRestored (Num (segment_id restoredSegment))\<rparr>
                    in Inr (st4\<lparr>undoBtn_disabled := (length (undoStack st4) = 0)\<rparr>))
               | _ \<Rightarrow> Inl TypeError)
            else Inr (undo_edit selectSegment_part000 ok lastChange st0)))"

section \<open>A sample session\<close>

text \<open>
  A chunk with three segments, the second one selected, used to run the operations on
  concrete inputs; and the same session after the second and the third segment have been
  marked for deletion, with a text edit of the first one before that.
\<close>

definition seg_a :: segment where
  "seg_a = \<lparr>segment_id = 1, chunk_id = 1, start_sec = 0, end_sec = 2, seg_text = ''hello'',
            gap_type = [], markedForDeletion = False, start_time = VUndef, end_time = VUndef\<rparr>"

definition seg_b :: segment where
  "seg_b = \<lparr>segment_id = 2, chunk_id = 1, start_sec = 10, end_sec = 12, seg_text = ''world'',
            gap_type = [], markedForDeletion = False, start_time = VUndef, end_time = VUndef\<rparr>"

definition seg_c :: segment where
  "seg_c = \<lparr>segment_id = 3, chunk_id = 1, start_sec = 12, end_sec = 15, seg_text = [],
            gap_type = ''silence'', markedForDeletion = False, start_time = VUndef,
            end_time = VUndef\<rparr>"

definition sample_chunk :: chunk where
  "sample_chunk = \<lparr>chunk_no = 1, chunk_start_time = 0, file_path = ''chunks/chunk_001.wav''\<rparr>"

definition next_chunk :: chunk where
  "next_chunk = \<lparr>chunk_no = 2, chunk_start_time = 30, file_path = ''chunks/chunk_002.wav''\<rparr>"


definition sample_state :: state where
  "sample_state =
     \<lparr>chunks = [sample_chunk, next_chunk],
      segments = [seg_a, seg_b, seg_c],
      currentChunkId = 1,
      currentChunk = Some sample_chunk,
      selectedSegmentId = Some (Num 2),
      undoStack = [],
      deletedSegments = [],
      hasUnsavedChanges = False,
      status = ([], []),
      undoBtn_disabled = True,
      deleteBtn_disabled = False,
      finalizeBtn_disabled = Some True,
      selectedInfo = InfoNone,
      requests = []\<rparr>"

definition pending_state :: state where
  "pending_state =
     sample_state\<lparr>segments := [seg_a, seg_b\<lparr>markedForDeletion := True\<rparr>,
                               seg_c\<lparr>markedForDeletion := True\<rparr>],
                  selectedSegmentId := Some (Num 1),
                  undoStack := [EditText (Num 1) ''helo'', DeleteMark (Num 2), DeleteMark (Num 3)],
                  deletedSegments := [Num 2, Num 3],
                  hasUnsavedChanges := True,
                  undoBtn_disabled := False,
                  finalizeBtn_disabled := Some False\<rparr>"

text \<open>The region of the second segment after a drag by half a second, as the
  \<open>region-updated\<close> event delivers it.\<close>

definition sample_region :: region where
  "sample_region = \<lparr>region_id = ''2'', region_start = 10.5, region_end = 12.5\<rparr>"

text \<open>The sample session with an undo stack whose top entry names a segment that is not in
  the array.\<close>

definition stale_state :: state where
  "stale_state = sample_state\<lparr>undoStack := [EditText (Num 1) ''helo'', EditTime (Num 7) 3 4],
                              undoBtn_disabled := False\<rparr>"




section \<open>Properties of the model\<close>

subsection \<open>Decimal strings\<close>

lemma digit_char_is_digit: "d < 10 \<Longrightarrow> is_digit (digit_char d)"
  by (simp add: is_digit_def digit_char_def)

lemma digit_val_digit_char: "d < 10 \<Longrightarrow> digit_val (digit_char d) = d"
  by (simp add: digit_val_def digit_char_def)

lemma digits_of_all_digits: "c \<in> set (digits_of n) \<Longrightarrow> is_digit c"
proof (induction n arbitrary: c rule: digits_of.induct)
  case (1 n)
  show ?case
  proof (cases "n < 10")
    case True
    with "1.prems" show ?thesis
      by (subst (asm) digits_of.simps) (simp add: digit_char_is_digit)
  next
    case False
    with 1 show ?thesis
      by (subst (asm) (2) digits_of.simps) (auto simp add: digit_char_is_digit)
  qed
qed

lemma digits_of_nonempty: "digits_of n \<noteq> []"
  by (subst digits_of.simps) simp

lemma digits_of_value: "foldl (\<lambda>acc c. acc * 10 + digit_val c) 0 (digits_of n) = n"
proof (induction n rule: digits_of.induct)
  case (1 n)
  show ?case
  proof (cases "n < 10")
    case True
    then show ?thesis
      by (subst digits_of.simps) (simp add: digit_val_digit_char)
  next
    case False
    with 1 show ?thesis
      by (subst digits_of.simps) (simp add: digit_val_digit_char)
  qed
qed

lemma is_digit_not_ws: "is_digit c \<Longrightarrow> \<not> is_ws c"
  by (auto simp: is_digit_def is_ws_def)

lemma is_digit_not_sign: "is_digit c \<Longrightarrow> c \<noteq> CHR ''-'' \<and> c \<noteq> CHR ''+'' \<and> c \<noteq> CHR ''x'' \<and> c \<noteq> CHR ''X''"
  by (auto simp: is_digit_def)

lemma parseInt_digits:
  assumes ne: "ds \<noteq> []" and ad: "\<forall>c \<in> set ds. is_digit c"
  shows "parseInt ds = Num (int (foldl (\<lambda>acc c. acc * 10 + digit_val c) 0 ds))"
    and "parseInt (CHR ''-'' # ds) = Num (- int (foldl (\<lambda>acc c. acc * 10 + digit_val c) 0 ds))"
proof -
  from ne obtain a r where ds: "ds = a # r" by (cases ds) auto
  have a: "is_digit a" using ad ds by simp
  have nohex: "(case ds of a # b # _ \<Rightarrow> a = CHR ''0'' \<and> (b = CHR ''x'' \<or> b = CHR ''X'') | _ \<Rightarrow> False) = False"
    using ad ds by (cases r) (auto simp: is_digit_not_sign)
  have tw: "takeWhile is_digit ds = ds"
    using ad by (simp add: takeWhile_eq_all_conv)
  have dw: "dropWhile is_ws ds = ds"
    using a ds by (simp add: is_digit_not_ws)
  have sg: "(case ds of [] \<Rightarrow> [] | c # r \<Rightarrow> if c = CHR ''-'' \<or> c = CHR ''+'' then r else ds) = ds"
    using a ds by (simp add: is_digit_not_sign)
  have ng: "(case ds of [] \<Rightarrow> False | c # _ \<Rightarrow> c = CHR ''-'') = False"
    using a ds by (simp add: is_digit_not_sign)
  show "parseInt ds = Num (int (foldl (\<lambda>acc c. acc * 10 + digit_val c) 0 ds))"
    unfolding parseInt_def Let_def dw sg ng nohex using ne by (simp add: tw)
  have ws: "\<not> is_ws CHR ''-''" by (simp add: is_ws_def)
  show "parseInt (CHR ''-'' # ds) = Num (- int (foldl (\<lambda>acc c. acc * 10 + digit_val c) 0 ds))"
    unfolding parseInt_def Let_def using ne ws nohex by (simp add: tw)
qed

lemma parseInt_digits_of: "parseInt (digits_of n) = Num (int n)"
  using parseInt_digits(1)[OF digits_of_nonempty, of n] digits_of_all_digits[of _ n]
  by (simp add: digits_of_value)

lemma parseInt_minus_digits_of: "parseInt (CHR ''-'' # digits_of n) = Num (- int n)"
  using parseInt_digits(2)[OF digits_of_nonempty, of n] digits_of_all_digits[of _ n]
  by (simp add: digits_of_value)

lemma parseInt_toString: "parseInt (toString n) = Num n"
  by (simp add: toString_def parseInt_digits_of parseInt_minus_digits_of)


subsection \<open>findIndex\<close>

lemma findIndex_Some:
  "findIndex P xs = Some i \<Longrightarrow> i < length xs \<and> P (xs ! i) \<and> (\<forall>j<i. \<not> P (xs ! j))"
proof (induction xs arbitrary: i)
  case Nil
  then show ?case by simp
next
  case (Cons x xs)
  show ?case
  proof (cases "P x")
    case True
    with Cons.prems show ?thesis by simp
  next
    case False
    with Cons.prems obtain k where k: "findIndex P xs = Some k" "i = Suc k"
      by auto
    from Cons.IH[OF k(1)] False k(2) show ?thesis
      by (auto simp: nth_Cons split: nat.splits)
  qed
qed

lemma findIndex_None: "findIndex P xs = None \<longleftrightarrow> (\<forall>x \<in> set xs. \<not> P x)"
  by (induction xs) auto

lemma findIndex_map: "findIndex (\<lambda>s. Q (f s)) xs = findIndex Q (map f xs)"
  by (induction xs) auto

lemma findIndex_first:
  "i < length xs \<Longrightarrow> P (xs ! i) \<Longrightarrow> (\<forall>j<i. \<not> P (xs ! j)) \<Longrightarrow> findIndex P xs = Some i"
proof (induction xs arbitrary: i)
  case Nil
  then show ?case by simp
next
  case (Cons x xs)
  show ?case
  proof (cases i)
    case 0
    with Cons.prems show ?thesis by simp
  next
    case (Suc k)
    with Cons.prems have "\<not> P x" by auto
    moreover have "findIndex P xs = Some k"
      using Cons.prems Suc by (intro Cons.IH) auto
    ultimately show ?thesis using Suc by simp
  qed
qed

lemma findIndex_distinct:
  assumes "i < length xs" "distinct (map segment_id xs)"
  shows "findIndex (\<lambda>s. id_eq (segment_id s) (Num (segment_id (xs ! i)))) xs = Some i"
proof (rule findIndex_first)
  show "i < length xs" by fact
  show "id_eq (segment_id (xs ! i)) (Num (segment_id (xs ! i)))" by simp
  show "\<forall>j<i. \<not> id_eq (segment_id (xs ! j)) (Num (segment_id (xs ! i)))"
  proof (intro allI impI)
    fix j assume "j < i"
    with assms have "map segment_id xs ! j \<noteq> map segment_id xs ! i"
      by (auto simp: distinct_conv_nth)
    with \<open>j < i\<close> assms(1) show "\<not> id_eq (segment_id (xs ! j)) (Num (segment_id (xs ! i)))"
      by simp
  qed
qed

lemma map_field_update:
  assumes "f s' = f (xs ! i)"
  shows "map f (xs[i := s']) = map f xs"
proof (cases "i < length xs")
  case True
  then have "(map f xs)[i := map f xs ! i] = map f xs"
    by (simp only: list_update_id)
  with True show ?thesis by (simp add: map_update assms)
next
  case False
  then have "xs[i := s'] = xs" by (intro list_update_beyond) simp
  then show ?thesis by simp
qed

lemma findIndex_update_same_id:
  assumes "segment_id s' = segment_id (xs ! i)"
  shows "findIndex (\<lambda>s. id_eq (segment_id s) v) (xs[i := s'])
           = findIndex (\<lambda>s. id_eq (segment_id s) v) xs"
proof -
  have "map segment_id (xs[i := s']) = map segment_id xs"
    using assms by (rule map_field_update)
  then show ?thesis
    by (simp add: findIndex_map[of "\<lambda>n. id_eq n v" segment_id])
qed

subsection \<open>Frames\<close>

lemma setStatus_frame [simp]:
  "segments (setStatus m t st) = segments st"
  "undoStack (setStatus m t st) = undoStack st"
  "deletedSegments (setStatus m t st) = deletedSegments st"
  "hasUnsavedChanges (setStatus m t st) = hasUnsavedChanges st"
  "requests (setStatus m t st) = requests st"
  "selectedSegmentId (setStatus m t st) = selectedSegmentId st"
  "undoBtn_disabled (setStatus m t st) = undoBtn_disabled st"
  "status (setStatus m t st) = (m, t)"
  by (simp_all add: setStatus_def)

lemma saveSegmentUpdate_frame [simp]:
  "segments (saveSegmentUpdate ok v u st) = segments st"
  "undoStack (saveSegmentUpdate ok v u st) = undoStack st"
  "deletedSegments (saveSegmentUpdate ok v u st) = deletedSegments st"
  "hasUnsavedChanges (saveSegmentUpdate ok v u st) = hasUnsavedChanges st"
  "selectedSegmentId (saveSegmentUpdate ok v u st) = selectedSegmentId st"
  "requests (saveSegmentUpdate ok v u st) = requests st @ [PUT v (stringify u)]"
  by (simp_all add: saveSegmentUpdate_def Let_def)

lemma selectSegment_frame [simp]:
  "segments (selectSegment a st) = segments st"
  "undoStack (selectSegment a st) = undoStack st"
  "deletedSegments (selectSegment a st) = deletedSegments st"
  "hasUnsavedChanges (selectSegment a st) = hasUnsavedChanges st"
  "requests (selectSegment a st) = requests st"
  "selectedSegmentId (selectSegment a st) = Some (normalize_id a)"
  by (simp_all add: selectSegment_def Let_def split: option.splits)

lemma selectSegment_part000_frame [simp]:
  "segments (selectSegment_part000 a st) = segments st"
  "undoStack (selectSegment_part000 a st) = undoStack st"
  "deletedSegments (selectSegment_part000 a st) = deletedSegments st"
  "hasUnsavedChanges (selectSegment_part000 a st) = hasUnsavedChanges st"
  "requests (selectSegment_part000 a st) = requests st"
  "selectedSegmentId (selectSegment_part000 a st) = Some (normalize_id a)"
  by (simp_all add: selectSegment_part000_def Let_def split: option.splits)

subsection \<open>Selecting by number or by string\<close>

text \<open>
  Claim C8. \<open>selectSegment\<close> called with the decimal string of an integer \<open>n\<close> and called
  with the number \<open>n\<close> end in the same state, in both files: the string is turned into
  the number by \<open>parseInt\<close> before anything else happens, and the selection becomes the
  number \<open>n\<close>. Either call locates the first segment whose numeric \<open>segment_id\<close> equals
  \<open>n\<close>: if that segment is at index \<open>i\<close>, the selection info shows its duration, the
  delete button follows it (in \<^verbatim>\<open>src/frontend/app.js\<close> it is disabled exactly when
  that segment is marked for deletion, in \<^verbatim>\<open>src/unnamed/part_000\<close> it is enabled), and
  \<open>zoomToSegment\<close> computes from its times; if there is no such segment, the delete
  button is disabled, the selection info is left as it is and \<open>zoomToSegment\<close> returns
  at once.
\<close>

theorem selectSegment_string_or_number:
  "selectSegment (ArgStr (toString n)) st = selectSegment (ArgNum (Num n)) st
   \<and> selectSegment_part000 (ArgStr (toString n)) st = selectSegment_part000 (ArgNum (Num n)) st
   \<and> selectedSegmentId (selectSegment (ArgStr (toString n)) st) = Some (Num n)
   \<and> findIndex (\<lambda>s. id_eq (segment_id s) (normalize_id (ArgStr (toString n)))) (segments st)
       = findIndex (\<lambda>s. segment_id s = n) (segments st)
   \<and> (findIndex (\<lambda>s. segment_id s = n) (segments st) = Some i \<longrightarrow>
        i < length (segments st) \<and> segment_id (segments st ! i) = n
        \<and> selectSegment (ArgStr (toString n)) st
            = st\<lparr>selectedSegmentId := Some (Num n),
                 deleteBtn_disabled := markedForDeletion (segments st ! i),
                 selectedInfo := InfoSelected (Num n)
                                   (end_sec (segments st ! i) - start_sec (segments st ! i))
                                   (markedForDeletion (segments st ! i))\<rparr>
        \<and> selectSegment_part000 (ArgStr (toString n)) st
            = st\<lparr>selectedSegmentId := Some (Num n),
                 selectedInfo := InfoSelected (Num n)
                                   (end_sec (segments st ! i) - start_sec (segments st ! i)) False,
                 deleteBtn_disabled := False\<rparr>
        \<and> (currentChunk st = Some c \<longrightarrow>
             zoomToSegment totalDuration W (normalize_id (ArgStr (toString n))) st
               = (let r = zoomToSegment_calc (start_sec (segments st ! i) - chunk_start_time c)
                            (end_sec (segments st ! i) - chunk_start_time c) totalDuration W
                  in Zoomed (fst r) (fst (snd r)) (snd (snd r)))))
   \<and> (findIndex (\<lambda>s. segment_id s = n) (segments st) = None \<longrightarrow>
        selectSegment (ArgStr (toString n)) st
          = st\<lparr>selectedSegmentId := Some (Num n), deleteBtn_disabled := True\<rparr>
        \<and> selectSegment_part000 (ArgStr (toString n)) st
          = st\<lparr>selectedSegmentId := Some (Num n), deleteBtn_disabled := True\<rparr>
        \<and> zoomToSegment totalDuration W (normalize_id (ArgStr (toString n))) st = Skipped)"
proof -
  have n: "normalize_id (ArgStr (toString n)) = Num n"
    by (simp add: parseInt_toString)
  have e: "(\<lambda>s. id_eq (segment_id s) (Num n)) = (\<lambda>s. segment_id s = n)"
    by (rule ext) simp
  have c1: "selectSegment (ArgStr (toString n)) st = selectSegment (ArgNum (Num n)) st"
    unfolding selectSegment_def n by simp
  have c2: "selectSegment_part000 (ArgStr (toString n)) st
                   = selectSegment_part000 (ArgNum (Num n)) st"
    unfolding selectSegment_part000_def n by simp
  have c3: "selectedSegmentId (selectSegment (ArgStr (toString n)) st) = Some (Num n)"
    by (simp only: selectSegment_frame n)
  have c4: "findIndex (\<lambda>s. id_eq (segment_id s) (normalize_id (ArgStr (toString n)))) (segments st)
       = findIndex (\<lambda>s. segment_id s = n) (segments st)"
    unfolding n e by (rule refl)
  have found: "i < length (segments st) \<and> segment_id (segments st ! i) = n
        \<and> selectSegment (ArgStr (toString n)) st
            = st\<lparr>selectedSegmentId := Some (Num n),
                 deleteBtn_disabled := markedForDeletion (segments st ! i),
                 selectedInfo := InfoSelected (Num n)
                                   (end_sec (segments st ! i) - start_sec (segments st ! i))
                                   (markedForDeletion (segments st ! i))\<rparr>
        \<and> selectSegment_part000 (ArgStr (toString n)) st
            = st\<lparr>selectedSegmentId := Some (Num n),
                 selectedInfo := InfoSelected (Num n)
                                   (end_sec (segments st ! i) - start_sec (segments st ! i)) False,
                 deleteBtn_disabled := False\<rparr>
        \<and> (currentChunk st = Some c \<longrightarrow>
             zoomToSegment totalDuration W (normalize_id (ArgStr (toString n))) st
               = (let r = zoomToSegment_calc (start_sec (segments st ! i) - chunk_start_time c)
                            (end_sec (segments st ! i) - chunk_start_time c) totalDuration W
                  in Zoomed (fst r) (fst (snd r)) (snd (snd r))))"
    if f: "findIndex (\<lambda>s. segment_id s = n) (segments st) = Some i"
  proof -
    from findIndex_Some[OF f] have i: "i < length (segments st)" "segment_id (segments st ! i) = n"
      by simp_all
    have s1: "selectSegment (ArgStr (toString n)) st
            = st\<lparr>selectedSegmentId := Some (Num n),
                 deleteBtn_disabled := markedForDeletion (segments st ! i),
                 selectedInfo := InfoSelected (Num n)
                                   (end_sec (segments st ! i) - start_sec (segments st ! i))
                                   (markedForDeletion (segments st ! i))\<rparr>"
      unfolding selectSegment_def n by (simp add: Let_def f)
    have s2: "selectSegment_part000 (ArgStr (toString n)) st
            = st\<lparr>selectedSegmentId := Some (Num n),
                 selectedInfo := InfoSelected (Num n)
                                   (end_sec (segments st ! i) - start_sec (segments st ! i)) False,
                 deleteBtn_disabled := False\<rparr>"
      unfolding selectSegment_part000_def n by (simp add: Let_def f)
    have s3: "currentChunk st = Some c \<longrightarrow>
             zoomToSegment totalDuration W (normalize_id (ArgStr (toString n))) st
               = (let r = zoomToSegment_calc (start_sec (segments st ! i) - chunk_start_time c)
                            (end_sec (segments st ! i) - chunk_start_time c) totalDuration W
                  in Zoomed (fst r) (fst (snd r)) (snd (snd r)))"
      unfolding zoomToSegment_def n by (simp add: Let_def f split: prod.splits)
    from i s1 s2 s3 show ?thesis by blast
  qed
  have missing: "selectSegment (ArgStr (toString n)) st
          = st\<lparr>selectedSegmentId := Some (Num n), deleteBtn_disabled := True\<rparr>
        \<and> selectSegment_part000 (ArgStr (toString n)) st
          = st\<lparr>selectedSegmentId := Some (Num n), deleteBtn_disabled := True\<rparr>
        \<and> zoomToSegment totalDuration W (normalize_id (ArgStr (toString n))) st = Skipped"
    if f: "findIndex (\<lambda>s. segment_id s = n) (segments st) = None"
    unfolding selectSegment_def selectSegment_part000_def zoomToSegment_def n
    by (simp add: Let_def f)
  from c1 c2 c3 c4 found missing show ?thesis by blast
qed

theorem selectSegment_string_or_number_witness:
  "findIndex (\<lambda>s. segment_id s = 2) (segments sample_state) = Some 1
   \<and> selectSegment (ArgStr ''2'') sample_state = selectSegment (ArgNum (Num 2)) sample_state
   \<and> selectedSegmentId (selectSegment (ArgStr ''2'') sample_state) = Some (Num 2)
   \<and> selectedInfo (selectSegment (ArgStr ''2'') sample_state) = InfoSelected (Num 2) 2 False
   \<and> \<not> deleteBtn_disabled (selectSegment (ArgStr ''2'') sample_state)
   \<and> selectedInfo (selectSegment_part000 (ArgStr ''2'') sample_state) = InfoSelected (Num 2) 2 False
   \<and> zoomToSegment 100 1000 (parseInt ''2'') sample_state
        = Zoomed (Fin 250) (Fin 2250) (Fin (1 / 10))
   \<and> findIndex (\<lambda>s. segment_id s = 7) (segments sample_state) = None
   \<and> deleteBtn_disabled (selectSegment (ArgStr ''7'') sample_state)
   \<and> selectedInfo (selectSegment (ArgStr ''7'') sample_state) = InfoNone"
proof -
  have t2: "toString 2 = ''2''" and t7: "toString 7 = ''7''" by code_simp+
  have f2: "findIndex (\<lambda>s. segment_id s = 2) (segments sample_state) = Some 1"
    and f7: "findIndex (\<lambda>s. segment_id s = 7) (segments sample_state) = None"
    and c: "currentChunk sample_state = Some sample_chunk"
    by (simp_all add: sample_state_def seg_a_def seg_b_def seg_c_def)
  have z: "zoomToSegment_calc 10 12 100 1000 = (Fin 250, Fin 2250, Fin (1 / 10))"
    by (simp add: zoomToSegment_calc_def centerOnTime_def Let_def)
  have v: "segments sample_state ! Suc 0 = seg_b" "start_sec seg_b = 10" "end_sec seg_b = 12"
    "markedForDeletion seg_b = False" "chunk_start_time sample_chunk = 0"
    "selectedInfo sample_state = InfoNone"
    by (simp_all add: sample_state_def seg_b_def sample_chunk_def)
  note T2 = selectSegment_string_or_number[of 2 sample_state 1 sample_chunk 100 1000]
  note T7 = selectSegment_string_or_number[of 7 sample_state 1 sample_chunk 100 1000]
  from T2 have e: "selectSegment (ArgStr (toString 2)) sample_state
                     = selectSegment (ArgNum (Num 2)) sample_state"
    by blast
  from T2 f2 have a: "selectSegment (ArgStr (toString 2)) sample_state
            = sample_state\<lparr>selectedSegmentId := Some (Num 2),
                 deleteBtn_disabled := markedForDeletion (segments sample_state ! 1),
                 selectedInfo := InfoSelected (Num 2)
                    (end_sec (segments sample_state ! 1) - start_sec (segments sample_state ! 1))
                    (markedForDeletion (segments sample_state ! 1))\<rparr>"
    by blast
  from T2 f2 have b: "selectSegment_part000 (ArgStr (toString 2)) sample_state
            = sample_state\<lparr>selectedSegmentId := Some (Num 2),
                 selectedInfo := InfoSelected (Num 2)
                    (end_sec (segments sample_state ! 1) - start_sec (segments sample_state ! 1))
                    False,
                 deleteBtn_disabled := False\<rparr>"
    by blast
  from T2 f2 c have d: "zoomToSegment 100 1000 (normalize_id (ArgStr (toString 2))) sample_state
               = (let r = zoomToSegment_calc
                            (start_sec (segments sample_state ! 1) - chunk_start_time sample_chunk)
                            (end_sec (segments sample_state ! 1) - chunk_start_time sample_chunk)
                            100 1000
                  in Zoomed (fst r) (fst (snd r)) (snd (snd r)))"
    by blast
  from T7 f7 have m: "selectSegment (ArgStr (toString 7)) sample_state
          = sample_state\<lparr>selectedSegmentId := Some (Num 7), deleteBtn_disabled := True\<rparr>"
    by blast
  have "selectSegment (ArgStr ''2'') sample_state = selectSegment (ArgNum (Num 2)) sample_state"
    using e by (simp only: t2)
  moreover have "selectedSegmentId (selectSegment (ArgStr ''2'') sample_state) = Some (Num 2)"
    using a by (simp add: t2)
  moreover have "selectedInfo (selectSegment (ArgStr ''2'') sample_state)
                   = InfoSelected (Num 2) 2 False"
    using a by (simp add: t2 v)
  moreover have "\<not> deleteBtn_disabled (selectSegment (ArgStr ''2'') sample_state)"
    using a by (simp add: t2 v)
  moreover have "selectedInfo (selectSegment_part000 (ArgStr ''2'') sample_state)
                   = InfoSelected (Num 2) 2 False"
    using b by (simp add: t2 v)
  moreover have "zoomToSegment 100 1000 (parseInt ''2'') sample_state
                   = Zoomed (Fin 250) (Fin 2250) (Fin (1 / 10))"
    using d by (simp add: t2 v z)
  moreover have "deleteBtn_disabled (selectSegment (ArgStr ''7'') sample_state)"
    using m by (simp add: t7)
  moreover have "selectedInfo (selectSegment (ArgStr ''7'') sample_state) = InfoNone"
    using m by (simp add: t7 v)
  ultimately show ?thesis using f2 f7 by blast
qed

subsection \<open>Saving the pending deletions\<close>

lemma deleteLoop_all_ok:
  "(\<forall>j<length ids. del_ok (k + j)) \<Longrightarrow> deleteLoop del_ok k ids = (map DELETE ids, True)"
proof (induction ids arbitrary: k)
  case Nil
  then show ?case by simp
next
  case (Cons x ids)
  from Cons.prems have "del_ok k" by force
  moreover have "\<forall>j<length ids. del_ok (Suc k + j)"
    using Cons.prems by force
  ultimately show ?case
    using Cons.IH[of "Suc k"] by simp
qed

lemma deleteLoop_fail:
  "m < length ids \<Longrightarrow> \<not> del_ok (k + m) \<Longrightarrow> (\<forall>j<m. del_ok (k + j)) \<Longrightarrow>
   deleteLoop del_ok k ids = (map DELETE (take (Suc m) ids), False)"
proof (induction ids arbitrary: k m)
  case Nil
  then show ?case by simp
next
  case (Cons x ids)
  show ?case
  proof (cases m)
    case 0
    with Cons.prems show ?thesis by simp
  next
    case (Suc m')
    with Cons.prems have "del_ok k" by force
    moreover have "deleteLoop del_ok (Suc k) ids = (map DELETE (take (Suc m') ids), False)"
    proof (rule Cons.IH)
      show "m' < length ids" using Cons.prems Suc by simp
      show "\<not> del_ok (Suc k + m')" using Cons.prems Suc by simp
      show "\<forall>j<m'. del_ok (Suc k + j)"
      proof (intro allI impI)
        fix j assume "j < m'"
        then have "Suc j < m" using Suc by simp
        with Cons.prems have "del_ok (k + Suc j)" by blast
        then show "del_ok (Suc k + j)" by simp
      qed
    qed
    ultimately show ?thesis using Suc by simp
  qed
qed

lemma saveAll_success:
  assumes "\<forall>j<length (deletedSegments st). del_ok j"
  shows "requests (saveAll del_ok st) = requests st @ map DELETE (deletedSegments st)"
    and "deletedSegments (saveAll del_ok st) = []"
    and "\<not> hasUnsavedChanges (saveAll del_ok st)"
    and "deletedSegments st \<noteq> [] \<Longrightarrow>
         undoBtn_disabled (saveAll del_ok st) = (filter (\<lambda>item. \<not> is_delete item) (undoStack st) = [])"
    and "deletedSegments st \<noteq> [] \<Longrightarrow>
         undoStack (saveAll del_ok st) = filter (\<lambda>item. \<not> is_delete item) (undoStack st)"
proof -
  have run: "deleteLoop del_ok 0 (deletedSegments st) = (map DELETE (deletedSegments st), True)"
    using assms by (intro deleteLoop_all_ok) simp
  show "requests (saveAll del_ok st) = requests st @ map DELETE (deletedSegments st)"
    by (cases "deletedSegments st = []") (simp_all add: saveAll_def Let_def run)
  show "deletedSegments (saveAll del_ok st) = []"
    by (cases "deletedSegments st = []") (simp_all add: saveAll_def Let_def run)
  show "\<not> hasUnsavedChanges (saveAll del_ok st)"
    by (cases "deletedSegments st = []") (simp_all add: saveAll_def Let_def run)
  show "deletedSegments st \<noteq> [] \<Longrightarrow>
         undoBtn_disabled (saveAll del_ok st) = (filter (\<lambda>item. \<not> is_delete item) (undoStack st) = [])"
    by (simp add: saveAll_def Let_def run setStatus_def)
  show "deletedSegments st \<noteq> [] \<Longrightarrow>
         undoStack (saveAll del_ok st) = filter (\<lambda>item. \<not> is_delete item) (undoStack st)"
    by (simp add: saveAll_def Let_def run)
qed

lemma saveAll_failure:
  assumes "m < length (deletedSegments st)" "\<not> del_ok m" "\<forall>j<m. del_ok j"
  shows "saveAll del_ok st =
           st\<lparr>requests := requests st @ map DELETE (take (Suc m) (deletedSegments st)),
              status := (''Save failed'', ''error'')\<rparr>"
proof -
  have run: "deleteLoop del_ok 0 (deletedSegments st)
               = (map DELETE (take (Suc m) (deletedSegments st)), False)"
    using assms by (intro deleteLoop_fail) simp_all
  from assms(1) have "deletedSegments st \<noteq> []" by auto
  then show ?thesis
    by (simp add: saveAll_def Let_def run setStatus_def)
qed

lemma saveAll_segments: "segments (saveAll del_ok st) = segments st"
  by (simp add: saveAll_def Let_def)

text \<open>
  Claim C7. With nothing pending, \<open>saveAll\<close> sends no request: it sets the status to
  \<open>All changes saved\<close> and clears the unsaved-changes flag, and that is all it changes.
\<close>
theorem saveAll_nothing_pending:
  assumes "deletedSegments st = []"
  shows "saveAll del_ok st = st\<lparr>status := (''All changes saved'', ''saved''),
                                hasUnsavedChanges := False\<rparr>
         \<and> requests (saveAll del_ok st) = requests st"
  using assms by (simp add: saveAll_def setStatus_def)

theorem saveAll_nothing_pending_witness:
  "deletedSegments sample_state = []
   \<and> requests (saveAll (\<lambda>k. False) sample_state) = []
   \<and> status (saveAll (\<lambda>k. False) sample_state) = (''All changes saved'', ''saved'')
   \<and> \<not> hasUnsavedChanges (saveAll (\<lambda>k. False) sample_state)"
proof -
  have e: "deletedSegments sample_state = []" by (simp add: sample_state_def)
  from saveAll_nothing_pending[OF e, of "\<lambda>k. False"] e show ?thesis
    by (simp add: sample_state_def)
qed

text \<open>
  Claim C6. With pending deletions, \<open>saveAll\<close> sends one \<open>DELETE\<close> per id, in the order
  of the list. If the call number \<open>m\<close> is the first that fails, the requests sent are
  those for the first \<open>m + 1\<close> ids and no more, and the pending list, the
  unsaved-changes flag and the undo stack are what they were. If every call succeeds, the
  pending list is emptied, the delete entries leave the undo stack (the undo control is
  disabled exactly when nothing remains), and the unsaved-changes flag is cleared.
\<close>
theorem saveAll_pending_deletions:
  assumes "deletedSegments st \<noteq> []"
  shows "(\<forall>m. m < length (deletedSegments st) \<and> \<not> del_ok m \<and> (\<forall>j<m. del_ok j) \<longrightarrow>
            requests (saveAll del_ok st)
              = requests st @ map DELETE (take (Suc m) (deletedSegments st))
            \<and> deletedSegments (saveAll del_ok st) = deletedSegments st
            \<and> hasUnsavedChanges (saveAll del_ok st) = hasUnsavedChanges st
            \<and> undoStack (saveAll del_ok st) = undoStack st
            \<and> status (saveAll del_ok st) = (''Save failed'', ''error''))
       \<and> ((\<forall>j<length (deletedSegments st). del_ok j) \<longrightarrow>
            requests (saveAll del_ok st) = requests st @ map DELETE (deletedSegments st)
            \<and> deletedSegments (saveAll del_ok st) = []
            \<and> undoStack (saveAll del_ok st) = filter (\<lambda>item. \<not> is_delete item) (undoStack st)
            \<and> undoBtn_disabled (saveAll del_ok st)
                = (filter (\<lambda>item. \<not> is_delete item) (undoStack st) = [])
            \<and> \<not> hasUnsavedChanges (saveAll del_ok st))"
proof (intro conjI allI impI)
  fix m
  assume a: "m < length (deletedSegments st) \<and> \<not> del_ok m \<and> (\<forall>j<m. del_ok j)"
  then have eq: "saveAll del_ok st =
           st\<lparr>requests := requests st @ map DELETE (take (Suc m) (deletedSegments st)),
              status := (''Save failed'', ''error'')\<rparr>"
    by (intro saveAll_failure) simp_all
  show "requests (saveAll del_ok st)
              = requests st @ map DELETE (take (Suc m) (deletedSegments st))"
    by (simp add: eq)
  show "deletedSegments (saveAll del_ok st) = deletedSegments st" by (simp add: eq)
  show "hasUnsavedChanges (saveAll del_ok st) = hasUnsavedChanges st" by (simp add: eq)
  show "undoStack (saveAll del_ok st) = undoStack st" by (simp add: eq)
  show "status (saveAll del_ok st) = (''Save failed'', ''error'')" by (simp add: eq)
next
  assume a: "\<forall>j<length (deletedSegments st). del_ok j"
  show "requests (saveAll del_ok st) = requests st @ map DELETE (deletedSegments st)"
    by (rule saveAll_success(1)[OF a])
  show "deletedSegments (saveAll del_ok st) = []"
    by (rule saveAll_success(2)[OF a])
  show "undoStack (saveAll del_ok st) = filter (\<lambda>item. \<not> is_delete item) (undoStack st)"
    by (rule saveAll_success(5)[OF a assms])
  show "undoBtn_disabled (saveAll del_ok st)
                = (filter (\<lambda>item. \<not> is_delete item) (undoStack st) = [])"
    by (rule saveAll_success(4)[OF a assms])
  show "\<not> hasUnsavedChanges (saveAll del_ok st)"
    by (rule saveAll_success(3)[OF a])
qed

theorem saveAll_pending_deletions_witness:
  "deletedSegments pending_state \<noteq> []
   \<and> requests (saveAll (\<lambda>k. k \<noteq> 0) pending_state) = [DELETE (Num 2)]
   \<and> deletedSegments (saveAll (\<lambda>k. k \<noteq> 0) pending_state) = [Num 2, Num 3]
   \<and> hasUnsavedChanges (saveAll (\<lambda>k. k \<noteq> 0) pending_state)
   \<and> requests (saveAll (\<lambda>k. True) pending_state) = [DELETE (Num 2), DELETE (Num 3)]
   \<and> deletedSegments (saveAll (\<lambda>k. True) pending_state) = []
   \<and> undoStack (saveAll (\<lambda>k. True) pending_state) = [EditText (Num 1) ''helo'']
   \<and> \<not> hasUnsavedChanges (saveAll (\<lambda>k. True) pending_state)"
proof -
  have ne: "deletedSegments pending_state \<noteq> []" by (simp add: pending_state_def)
  have fail: "0 < length (deletedSegments pending_state) \<and> \<not> (0::nat) \<noteq> 0
                \<and> (\<forall>j<0. j \<noteq> (0::nat))"
    by (simp add: pending_state_def)
  have good: "\<forall>j<length (deletedSegments pending_state). True" by simp
  from saveAll_pending_deletions[OF ne, of "\<lambda>k. k \<noteq> 0"] fail
  have "requests (saveAll (\<lambda>k. k \<noteq> 0) pending_state)
          = requests pending_state @ map DELETE (take (Suc 0) (deletedSegments pending_state))
        \<and> deletedSegments (saveAll (\<lambda>k. k \<noteq> 0) pending_state) = deletedSegments pending_state
        \<and> hasUnsavedChanges (saveAll (\<lambda>k. k \<noteq> 0) pending_state)
            = hasUnsavedChanges pending_state"
    by blast
  moreover from saveAll_pending_deletions[OF ne, of "\<lambda>k. True"] good
  have "requests (saveAll (\<lambda>k. True) pending_state)
          = requests pending_state @ map DELETE (deletedSegments pending_state)
        \<and> deletedSegments (saveAll (\<lambda>k. True) pending_state) = []
        \<and> undoStack (saveAll (\<lambda>k. True) pending_state)
            = filter (\<lambda>item. \<not> is_delete item) (undoStack pending_state)
        \<and> \<not> hasUnsavedChanges (saveAll (\<lambda>k. True) pending_state)"
    by blast
  ultimately show ?thesis
    by (simp add: pending_state_def sample_state_def)
qed

lemma filter_all_unmarked: "filter P xs = [] \<Longrightarrow> filter (\<lambda>s. \<not> P s) xs = xs"
  by (induction xs) (auto split: if_splits)

lemma finalizeDeletes_success:
  assumes "\<forall>j<length (filter markedForDeletion (segments st)). del_ok j"
  shows "segments (finalizeDeletes del_ok st) = filter (\<lambda>s. \<not> markedForDeletion s) (segments st)"
proof (cases "filter markedForDeletion (segments st) = []")
  case True
  then show ?thesis
    by (simp add: finalizeDeletes_def filter_all_unmarked)
next
  case False
  have run: "deleteLoop del_ok 0 (map (\<lambda>s. Num (segment_id s)) (filter markedForDeletion (segments st)))
               = (map DELETE (map (\<lambda>s. Num (segment_id s)) (filter markedForDeletion (segments st))), True)"
    using assms by (intro deleteLoop_all_ok) simp
  from False show ?thesis
    by (simp add: finalizeDeletes_def Let_def run)
qed

text \<open>
  Claim C10. \<open>saveAll\<close> of \<^verbatim>\<open>src/frontend/app.js\<close> leaves \<open>state.segments\<close> as it is,
  whatever the outcome of the requests: after a successful run the \<open>DELETE\<close> requests
  have been sent and the pending list is empty, and the marked segments are still in the
  array, marked. \<open>finalizeDeletes\<close> is the operation that drops them: on success it keeps
  exactly the unmarked segments.
\<close>
theorem saveAll_keeps_marked_segments:
  "segments (saveAll del_ok st) = segments st
   \<and> ((\<forall>j<length (deletedSegments st). del_ok j) \<longrightarrow>
         requests (saveAll del_ok st) = requests st @ map DELETE (deletedSegments st)
         \<and> deletedSegments (saveAll del_ok st) = [])
   \<and> ((\<forall>j<length (filter markedForDeletion (segments st)). del_ok j) \<longrightarrow>
         segments (finalizeDeletes del_ok st)
           = filter (\<lambda>s. \<not> markedForDeletion s) (segments st))"
  using saveAll_segments saveAll_success(1,2) finalizeDeletes_success by blast


theorem saveAll_keeps_marked_segments_witness:
  "segments (saveAll (\<lambda>k. True) pending_state)
     = [seg_a, seg_b\<lparr>markedForDeletion := True\<rparr>, seg_c\<lparr>markedForDeletion := True\<rparr>]
   \<and> requests (saveAll (\<lambda>k. True) pending_state) = [DELETE (Num 2), DELETE (Num 3)]
   \<and> deletedSegments (saveAll (\<lambda>k. True) pending_state) = []
   \<and> segments (finalizeDeletes (\<lambda>k. True) pending_state) = [seg_a]"
  using saveAll_keeps_marked_segments[of "\<lambda>k. True" pending_state]
  by (simp add: pending_state_def sample_state_def seg_a_def seg_b_def seg_c_def)

subsection \<open>Undo\<close>

lemma undo_edit_not_found:
  assumes "entry_segmentId e = Some sid" "\<forall>s \<in> set (segments st). \<not> id_eq (segment_id s) sid"
  shows "undo_edit select ok e st = st\<lparr>undoBtn_disabled := (undoStack st = [])\<rparr>"
proof -
  have "findIndex (\<lambda>s. id_eq (segment_id s) sid) (segments st) = None"
    using assms(2) by (simp add: findIndex_None)
  then show ?thesis
    by (simp add: undo_edit_def assms(1))
qed

lemma undo_edit_found:
  assumes sid: "entry_segmentId e = Some sid"
    and i: "findIndex (\<lambda>s. id_eq (segment_id s) sid) (segments st) = Some i"
    and sel: "\<And>a s. segments (select a s) = segments s" "\<And>a s. undoStack (select a s) = undoStack s"
             "\<And>a s. deletedSegments (select a s) = deletedSegments s"
  shows "segments (undo_edit select ok e st) =
           (segments st)[i := (case entry_oldText e of
                                 Some t \<Rightarrow> (case entry_oldTimes e of
                                              Some (a, b) \<Rightarrow> (segments st ! i)\<lparr>start_sec := a, end_sec := b\<rparr>
                                            | None \<Rightarrow> segments st ! i)\<lparr>seg_text := t\<rparr>
                               | None \<Rightarrow> (case entry_oldTimes e of
                                              Some (a, b) \<Rightarrow> (segments st ! i)\<lparr>start_sec := a, end_sec := b\<rparr>
                                            | None \<Rightarrow> segments st ! i))]"
    and "undoStack (undo_edit select ok e st) = undoStack st"
    and "deletedSegments (undo_edit select ok e st) = deletedSegments st"
  by (simp_all add: undo_edit_def sid i Let_def sel split: option.splits prod.splits)

lemma undo_top:
  assumes "undoStack st = stk @ [e]"
  shows "\<not> is_delete e \<Longrightarrow> undo ok st = undo_edit selectSegment ok e (st\<lparr>undoStack := stk\<rparr>)"
    and "\<not> is_delete e \<Longrightarrow>
         undo_part000 ok st = Inr (undo_edit selectSegment_part000 ok e (st\<lparr>undoStack := stk\<rparr>))"
  by (simp_all add: undo_def undo_part000_def assms)

text \<open>
  Claim C9. When the entry popped by \<open>undo\<close> is an edit entry whose \<open>segmentId\<close> matches
  no segment of the array, the only changes are the pop itself and the undo control,
  which is disabled exactly when the remaining stack is empty: no segment is touched and
  no request is sent. This holds for the \<open>undo\<close> of both files.
\<close>
theorem undo_lookup_miss:
  assumes "undoStack st \<noteq> []"
    and "\<not> is_delete (last (undoStack st))"
    and "entry_segmentId (last (undoStack st)) = Some sid"
    and "\<forall>s \<in> set (segments st). \<not> id_eq (segment_id s) sid"
  shows "undo ok st = st\<lparr>undoStack := butlast (undoStack st),
                         undoBtn_disabled := (butlast (undoStack st) = [])\<rparr>
       \<and> undo_part000 ok st = Inr (st\<lparr>undoStack := butlast (undoStack st),
                                       undoBtn_disabled := (butlast (undoStack st) = [])\<rparr>)
       \<and> segments (undo ok st) = segments st
       \<and> requests (undo ok st) = requests st"
proof -
  from assms(1) have stk: "undoStack st = butlast (undoStack st) @ [last (undoStack st)]"
    by simp
  have nf: "undo_edit select ok (last (undoStack st)) (st\<lparr>undoStack := butlast (undoStack st)\<rparr>)
              = st\<lparr>undoStack := butlast (undoStack st),
                    undoBtn_disabled := (butlast (undoStack st) = [])\<rparr>" for select
    using assms(3,4) by (subst undo_edit_not_found[where sid = sid]) simp_all
  have u: "undo ok st = st\<lparr>undoStack := butlast (undoStack st),
                         undoBtn_disabled := (butlast (undoStack st) = [])\<rparr>"
    using undo_top(1)[OF stk assms(2)] nf by simp
  moreover have "undo_part000 ok st = Inr (st\<lparr>undoStack := butlast (undoStack st),
                                       undoBtn_disabled := (butlast (undoStack st) = [])\<rparr>)"
    using undo_top(2)[OF stk assms(2)] nf by simp
  moreover have "segments (undo ok st) = segments st" by (simp add: u)
  moreover have "requests (undo ok st) = requests st" by (simp add: u)
  ultimately show ?thesis by blast
qed

theorem undo_lookup_miss_witness:
  "undoStack stale_state \<noteq> []
   \<and> \<not> is_delete (last (undoStack stale_state))
   \<and> entry_segmentId (last (undoStack stale_state)) = Some (Num 7)
   \<and> map segment_id (segments stale_state) = [1, 2, 3]
   \<and> undoStack (undo True stale_state) = [EditText (Num 1) ''helo'']
   \<and> \<not> undoBtn_disabled (undo True stale_state)
   \<and> segments (undo True stale_state) = [seg_a, seg_b, seg_c]
   \<and> requests (undo True stale_state) = []
   \<and> undoBtn_disabled (undo True ((undo True stale_state)\<lparr>segments := []\<rparr>))"
proof -
  have h: "undoStack stale_state \<noteq> []" "\<not> is_delete (last (undoStack stale_state))"
    "entry_segmentId (last (undoStack stale_state)) = Some (Num 7)"
    "\<forall>s \<in> set (segments stale_state). \<not> id_eq (segment_id s) (Num 7)"
    by (simp_all add: stale_state_def sample_state_def seg_a_def seg_b_def seg_c_def)
  let ?st1 = "(undo True stale_state)\<lparr>segments := []\<rparr>"
  have u1: "undo True stale_state = stale_state\<lparr>undoStack := [EditText (Num 1) ''helo''],
                                               undoBtn_disabled := False\<rparr>"
    using undo_lookup_miss[OF h, of True] by (simp add: stale_state_def)
  have h2: "undoStack ?st1 \<noteq> []" "\<not> is_delete (last (undoStack ?st1))"
    "entry_segmentId (last (undoStack ?st1)) = Some (Num 1)"
    "\<forall>s \<in> set (segments ?st1). \<not> id_eq (segment_id s) (Num 1)"
    by (simp_all add: u1)
  have u2: "undoBtn_disabled (undo True ?st1)"
    using undo_lookup_miss[OF h2, of True] by (simp add: u1)
  from h u1 u2 show ?thesis
    by (simp add: stale_state_def sample_state_def seg_a_def seg_b_def seg_c_def)
qed

subsection \<open>Edit, then undo\<close>

lemma handleRegionUpdate_found:
  assumes "parseInt (region_id r) = sid"
    and "findIndex (\<lambda>s. id_eq (segment_id s) sid) (segments st) = Some i"
    and "currentChunk st = Some c"
  shows "handleRegionUpdate ok r st =
           Inr (saveSegmentUpdate ok sid
                  [(''start_sec'', VNum (region_start r + chunk_start_time c)),
                   (''end_sec'', VNum (region_end r + chunk_start_time c))]
                  (st\<lparr>undoStack := undoStack st
                         @ [EditTime sid (start_sec (segments st ! i)) (end_sec (segments st ! i))],
                      undoBtn_disabled := False,
                      segments := (segments st)
                         [i := (segments st ! i)\<lparr>start_sec := region_start r + chunk_start_time c,
                                                 end_sec := region_end r + chunk_start_time c\<rparr>],
                      hasUnsavedChanges := True\<rparr>))"
  by (simp add: handleRegionUpdate_def Let_def assms)

lemma undo_edit_roundtrip:
  assumes top: "undoStack st' = undoStack st @ [e]"
    and nd: "\<not> is_delete e"
    and sid: "entry_segmentId e = Some (Num (segment_id (segments st ! i)))"
    and i: "i < length (segments st)"
    and d: "distinct (map segment_id (segments st))"
    and seg: "segments st' = (segments st)[i := x]"
    and x: "segment_id x = segment_id (segments st ! i)"
    and restored: "(case entry_oldText e of
                  Some t \<Rightarrow> (case entry_oldTimes e of
                               Some (a, b) \<Rightarrow> x\<lparr>start_sec := a, end_sec := b\<rparr>
                             | None \<Rightarrow> x)\<lparr>seg_text := t\<rparr>
                | None \<Rightarrow> (case entry_oldTimes e of
                               Some (a, b) \<Rightarrow> x\<lparr>start_sec := a, end_sec := b\<rparr>
                             | None \<Rightarrow> x)) = segments st ! i"
  shows "segments (undo ok st') = segments st"
    and "undoStack (undo ok st') = undoStack st"
    and "\<exists>st''. undo_part000 ok st' = Inr st'' \<and> segments st'' = segments st
                \<and> undoStack st'' = undoStack st"
proof -
  let ?st0 = "st'\<lparr>undoStack := undoStack st\<rparr>"
  have f: "findIndex (\<lambda>s. id_eq (segment_id s) (Num (segment_id (segments st ! i)))) (segments ?st0)
             = Some i"
  proof -
    have s0: "segments ?st0 = (segments st)[i := x]" by (simp add: seg)
    show ?thesis
      by (simp only: s0 findIndex_update_same_id[OF x] findIndex_distinct[OF i d])
  qed
  have nth: "segments ?st0 ! i = x" using i by (simp add: seg)
  have r: "segments (undo_edit select ok e ?st0) = segments st"
    if "\<And>a s. segments (select a s) = segments s" "\<And>a s. undoStack (select a s) = undoStack s"
       "\<And>a s. deletedSegments (select a s) = deletedSegments s" for select
    using i restored by (subst undo_edit_found(1)[OF sid f that])
      (auto simp add: seg split: option.splits prod.splits)
  have s: "undoStack (undo_edit select ok e ?st0) = undoStack st"
    if "\<And>a s. segments (select a s) = segments s" "\<And>a s. undoStack (select a s) = undoStack s"
       "\<And>a s. deletedSegments (select a s) = deletedSegments s" for select
    by (subst undo_edit_found(2)[OF sid f that]) simp
  show "segments (undo ok st') = segments st"
    by (simp add: undo_top(1)[OF top nd] r)
  show "undoStack (undo ok st') = undoStack st"
    by (simp add: undo_top(1)[OF top nd] s)
  show "\<exists>st''. undo_part000 ok st' = Inr st'' \<and> segments st'' = segments st
                \<and> undoStack st'' = undoStack st"
    by (simp add: undo_top(2)[OF top nd] r s)
qed

text \<open>
  Claim C1. Let the segment at index \<open>i\<close> be in the store, with the ids of the store
  pairwise different (ids are unique). Committing a drag or resize of its region
  (\<open>handleRegionUpdate\<close>, the region carrying the id of the segment as a decimal string)
  pushes an entry holding the old \<open>start_sec\<close> and \<open>end_sec\<close> and writes the new times;
  committing a text edit that changes the text pushes an entry holding the old text and
  writes the new text. In both cases \<open>undo\<close> then brings \<open>state.segments\<close> back to what it
  was before the edit, all fields of the segment included, and the undo stack back as
  well; this holds for the \<open>undo\<close> of both files.
\<close>
theorem edit_then_undo_restores_fields:
  assumes i: "i < length (segments st)"
    and d: "distinct (map segment_id (segments st))"
  shows "(currentChunk st = Some c \<and> region_id r = toString (segment_id (segments st ! i)) \<longrightarrow>
           (\<exists>st'. handleRegionUpdate ok r st = Inr st'
              \<and> undoStack st' = undoStack st
                   @ [EditTime (Num (segment_id (segments st ! i)))
                        (start_sec (segments st ! i)) (end_sec (segments st ! i))]
              \<and> segments st' = (segments st)
                   [i := (segments st ! i)\<lparr>start_sec := region_start r + chunk_start_time c,
                                           end_sec := region_end r + chunk_start_time c\<rparr>]
              \<and> segments (undo ok' st') = segments st
              \<and> undoStack (undo ok' st') = undoStack st
              \<and> (\<exists>st''. undo_part000 ok' st' = Inr st'' \<and> segments st'' = segments st)))
       \<and> (newText \<noteq> startTextEdit i st \<longrightarrow>
           (\<exists>st'. finishEdit_text ok True (startTextEdit i st) newText i st = st'
              \<and> undoStack st' = undoStack st
                   @ [EditText (Num (segment_id (segments st ! i))) (seg_text (segments st ! i))]
              \<and> segments st' = (segments st)[i := (segments st ! i)\<lparr>seg_text := newText\<rparr>]
              \<and> segments (undo ok' st') = segments st
              \<and> undoStack (undo ok' st') = undoStack st
              \<and> (\<exists>st''. undo_part000 ok' st' = Inr st'' \<and> segments st'' = segments st)))"
proof (intro conjI impI)
  assume a: "currentChunk st = Some c \<and> region_id r = toString (segment_id (segments st ! i))"
  let ?sid = "Num (segment_id (segments st ! i))"
  let ?x = "(segments st ! i)\<lparr>start_sec := region_start r + chunk_start_time c,
                              end_sec := region_end r + chunk_start_time c\<rparr>"
  let ?e = "EditTime ?sid (start_sec (segments st ! i)) (end_sec (segments st ! i))"
  let ?st' = "saveSegmentUpdate ok ?sid
                  [(''start_sec'', VNum (region_start r + chunk_start_time c)),
                   (''end_sec'', VNum (region_end r + chunk_start_time c))]
                  (st\<lparr>undoStack := undoStack st @ [?e],
                      undoBtn_disabled := False,
                      segments := (segments st)[i := ?x],
                      hasUnsavedChanges := True\<rparr>)"
  have p: "parseInt (region_id r) = ?sid" using a by (simp add: parseInt_toString)
  have h: "handleRegionUpdate ok r st = Inr ?st'"
    using a by (intro handleRegionUpdate_found[OF p findIndex_distinct[OF i d]]) simp
  have top: "undoStack ?st' = undoStack st @ [?e]" by simp
  have seg: "segments ?st' = (segments st)[i := ?x]" by simp
  have rt: "segments (undo ok' ?st') = segments st" "undoStack (undo ok' ?st') = undoStack st"
    "\<exists>st''. undo_part000 ok' ?st' = Inr st'' \<and> segments st'' = segments st
                \<and> undoStack st'' = undoStack st"
    by (rule undo_edit_roundtrip[OF top _ _ i d seg]; simp)+
  from h top seg rt show "\<exists>st'. handleRegionUpdate ok r st = Inr st'
              \<and> undoStack st' = undoStack st @ [?e]
              \<and> segments st' = (segments st)[i := ?x]
              \<and> segments (undo ok' st') = segments st
              \<and> undoStack (undo ok' st') = undoStack st
              \<and> (\<exists>st''. undo_part000 ok' st' = Inr st'' \<and> segments st'' = segments st)"
    by blast
next
  assume a: "newText \<noteq> startTextEdit i st"
  let ?sid = "Num (segment_id (segments st ! i))"
  let ?x = "(segments st ! i)\<lparr>seg_text := newText\<rparr>"
  let ?e = "EditText ?sid (seg_text (segments st ! i))"
  let ?st' = "finishEdit_text ok True (startTextEdit i st) newText i st"
  have top: "undoStack ?st' = undoStack st @ [?e]"
    using a i by (simp add: finishEdit_text_def startTextEdit_def Let_def)
  have seg: "segments ?st' = (segments st)[i := ?x]"
    using a i by (simp add: finishEdit_text_def startTextEdit_def Let_def)
  have rt: "segments (undo ok' ?st') = segments st" "undoStack (undo ok' ?st') = undoStack st"
    "\<exists>st''. undo_part000 ok' ?st' = Inr st'' \<and> segments st'' = segments st
                \<and> undoStack st'' = undoStack st"
    by (rule undo_edit_roundtrip[OF top _ _ i d seg]; simp)+
  from top seg rt show "\<exists>st'. finishEdit_text ok True (startTextEdit i st) newText i st = st'
              \<and> undoStack st' = undoStack st @ [?e]
              \<and> segments st' = (segments st)[i := ?x]
              \<and> segments (undo ok' st') = segments st
              \<and> undoStack (undo ok' st') = undoStack st
              \<and> (\<exists>st''. undo_part000 ok' st' = Inr st'' \<and> segments st'' = segments st)"
    by blast
qed


theorem edit_then_undo_restores_fields_witness:
  "1 < length (segments sample_state)
   \<and> distinct (map segment_id (segments sample_state))
   \<and> currentChunk sample_state = Some sample_chunk
   \<and> region_id sample_region = toString (segment_id (segments sample_state ! 1))
   \<and> (\<exists>st'. handleRegionUpdate True sample_region sample_state = Inr st'
         \<and> undoStack st' = [EditTime (Num 2) 10 12]
         \<and> segments st' = [seg_a, seg_b\<lparr>start_sec := 10.5, end_sec := 12.5\<rparr>, seg_c]
         \<and> segments (undo True st') = [seg_a, seg_b, seg_c])
   \<and> ''word'' \<noteq> startTextEdit 1 sample_state
   \<and> (\<exists>st'. finishEdit_text True True (startTextEdit 1 sample_state) ''word'' 1 sample_state = st'
         \<and> undoStack st' = [EditText (Num 2) ''world'']
         \<and> segments st' = [seg_a, seg_b\<lparr>seg_text := ''word''\<rparr>, seg_c]
         \<and> segments (undo True st') = [seg_a, seg_b, seg_c])"
proof -
  have i: "1 < length (segments sample_state)"
    by (simp add: sample_state_def)
  have d: "distinct (map segment_id (segments sample_state))"
    by (simp add: sample_state_def seg_a_def seg_b_def seg_c_def)
  have c: "currentChunk sample_state = Some sample_chunk
           \<and> region_id sample_region = toString (segment_id (segments sample_state ! 1))"
  proof -
    have "toString 2 = ''2''" by code_simp
    then show ?thesis
      by (simp add: sample_state_def sample_region_def seg_b_def)
  qed
  have t: "''word'' \<noteq> startTextEdit 1 sample_state"
    by (simp add: startTextEdit_def sample_state_def seg_b_def)
  have v: "segments sample_state = [seg_a, seg_b, seg_c]" "undoStack sample_state = []"
    "chunk_start_time sample_chunk = 0" "region_start sample_region = 10.5"
    "region_end sample_region = 12.5" "segment_id seg_b = 2" "start_sec seg_b = 10"
    "end_sec seg_b = 12" "seg_text seg_b = ''world''"
    by (simp_all add: sample_state_def sample_chunk_def sample_region_def seg_b_def)
  from edit_then_undo_restores_fields[OF i d, where c = sample_chunk
      and r = sample_region and newText = "''word''" and ok = True and ok' = True]
    c t
  have "(\<exists>st'. handleRegionUpdate True sample_region sample_state = Inr st'
         \<and> undoStack st' = [EditTime (Num 2) 10 12]
         \<and> segments st' = [seg_a, seg_b\<lparr>start_sec := 10.5, end_sec := 12.5\<rparr>, seg_c]
         \<and> segments (undo True st') = [seg_a, seg_b, seg_c])
      \<and> (\<exists>st'. finishEdit_text True True (startTextEdit 1 sample_state) ''word'' 1 sample_state = st'
         \<and> undoStack st' = [EditText (Num 2) ''world'']
         \<and> segments st' = [seg_a, seg_b\<lparr>seg_text := ''word''\<rparr>, seg_c]
         \<and> segments (undo True st') = [seg_a, seg_b, seg_c])"
    by (simp add: v) blast
  with i d c t show ?thesis by blast
qed

subsection \<open>Marking for deletion, then undo\<close>

lemma strict_eq_Num: "strict_eq x (Num n) = (x = Num n)"
  by (cases x) auto

lemma remove_indexOf_appended:
  assumes "Num n \<notin> set L"
  shows "remove_indexOf (Num n) (L @ [Num n]) = L"
proof -
  have "findIndex (\<lambda>x. strict_eq x (Num n)) (L @ [Num n]) = Some (length L)"
  proof (rule findIndex_first)
    show "length L < length (L @ [Num n])" by simp
    show "strict_eq ((L @ [Num n]) ! length L) (Num n)" by simp
    show "\<forall>j<length L. \<not> strict_eq ((L @ [Num n]) ! j) (Num n)"
    proof (intro allI impI)
      fix j assume j: "j < length L"
      then have "L ! j \<in> set L" by (rule nth_mem)
      with assms have "L ! j \<noteq> Num n" by auto
      with j show "\<not> strict_eq ((L @ [Num n]) ! j) (Num n)"
        by (simp add: strict_eq_Num nth_append)
    qed
  qed
  then show ?thesis
    by (simp add: remove_indexOf_def splice_remove_def)
qed



















subsection \<open>Removing, then undo\<close>







subsection \<open>The time editor of the table\<close>

text \<open>
  Claim C5 is not what \<^verbatim>\<open>src/frontend/app.js\<close> does. A committed edit of a time cell
  (the entered text differs from the two-decimal text of the old time) leaves \<open>start_sec\<close>
  and \<open>end_sec\<close> of every segment as they were: the parsed value is stored in a property
  \<open>start_time\<close> or \<open>end_time\<close> of the segment, and the body of the \<open>PUT\<close> has no other
  keys than \<open>start_time\<close> and \<open>end_time\<close>.
\<close>

theorem table_time_edit_leaves_start_sec:
  assumes "i < length (segments st)"
    and "newTime \<noteq> toFixed2 (startTimeEdit isStart i st)"
  shows "\<exists>st' body.
           finishEdit_time toFixed2 parseFloat ok True isStart (startTimeEdit isStart i st)
             newTime i st = st'
           \<and> map start_sec (segments st') = map start_sec (segments st)
           \<and> map end_sec (segments st') = map end_sec (segments st)
           \<and> (if isStart then start_time (segments st' ! i) else end_time (segments st' ! i))
                = parseFloat newTime
           \<and> undoStack st' = undoStack st
                @ [EditTableTime (Num (segment_id (segments st ! i)))
                     (toFixed2 (startTimeEdit isStart i st))]
           \<and> requests st' = requests st @ [PUT (Num (segment_id (segments st ! i))) body]
           \<and> set (map fst body) \<subseteq> {''start_time'', ''end_time''}"
proof -
  let ?seg = "segments st ! i"
  let ?seg' = "if isStart then ?seg\<lparr>start_time := parseFloat newTime\<rparr>
               else ?seg\<lparr>end_time := parseFloat newTime\<rparr>"
  let ?st' = "finishEdit_time toFixed2 parseFloat ok True isStart (startTimeEdit isStart i st)
                newTime i st"
  let ?body = "stringify [(''start_time'', start_time ?seg'), (''end_time'', end_time ?seg')]"
  have seg: "segments ?st' = (segments st)[i := ?seg']"
    using assms by (simp add: finishEdit_time_def Let_def)
  have "map start_sec (segments ?st') = map start_sec (segments st)"
    unfolding seg by (rule map_field_update) simp
  moreover have "map end_sec (segments ?st') = map end_sec (segments st)"
    unfolding seg by (rule map_field_update) simp
  moreover have "(if isStart then start_time (segments ?st' ! i) else end_time (segments ?st' ! i))
                   = parseFloat newTime"
    unfolding seg using assms(1) by simp
  moreover have "undoStack ?st' = undoStack st
                @ [EditTableTime (Num (segment_id ?seg)) (toFixed2 (startTimeEdit isStart i st))]"
    using assms by (simp add: finishEdit_time_def Let_def)
  moreover have "requests ?st' = requests st @ [PUT (Num (segment_id ?seg)) ?body]"
    using assms by (simp add: finishEdit_time_def Let_def)
  moreover have "set (map fst ?body) \<subseteq> {''start_time'', ''end_time''}"
    by (auto simp add: stringify_def)
  ultimately show ?thesis by blast
qed

theorem table_time_edit_leaves_start_sec_witness:
  "1 < length (segments sample_state)
   \<and> ''10.50'' \<noteq> (\<lambda>x. ''10.00'') (startTimeEdit True 1 sample_state)
   \<and> segments (finishEdit_time (\<lambda>x. ''10.00'') (\<lambda>s. VNum 10.5) True True True
                  (startTimeEdit True 1 sample_state) ''10.50'' 1 sample_state)
        = [seg_a, seg_b\<lparr>start_time := VNum 10.5\<rparr>, seg_c]
   \<and> map start_sec (segments (finishEdit_time (\<lambda>x. ''10.00'') (\<lambda>s. VNum 10.5) True True True
                  (startTimeEdit True 1 sample_state) ''10.50'' 1 sample_state))
        = [0, 10, 12]
   \<and> requests (finishEdit_time (\<lambda>x. ''10.00'') (\<lambda>s. VNum 10.5) True True True
                  (startTimeEdit True 1 sample_state) ''10.50'' 1 sample_state)
        = [PUT (Num 2) [(''start_time'', VNum 10.5)]]"
proof -
  have h: "1 < length (segments sample_state)"
    "''10.50'' \<noteq> (\<lambda>x. ''10.00'') (startTimeEdit True 1 sample_state)"
    by (simp_all add: sample_state_def)
  let ?st' = "finishEdit_time (\<lambda>x. ''10.00'') (\<lambda>s. VNum 10.5) True True True
                  (startTimeEdit True 1 sample_state) ''10.50'' 1 sample_state"
  from table_time_edit_leaves_start_sec[OF h, of "\<lambda>s. VNum 10.5" True]
  have "map start_sec (segments ?st') = map start_sec (segments sample_state)"
    by blast
  then have "map start_sec (segments ?st') = [0, 10, 12]"
    by (simp add: sample_state_def seg_a_def seg_b_def seg_c_def)
  moreover have "segments ?st' = [seg_a, seg_b\<lparr>start_time := VNum 10.5\<rparr>, seg_c]"
    by (simp add: finishEdit_time_def startTimeEdit_def Let_def sample_state_def seg_b_def)
  moreover have "requests ?st' = [PUT (Num 2) [(''start_time'', VNum 10.5)]]"
    by (simp add: finishEdit_time_def startTimeEdit_def Let_def sample_state_def seg_b_def
                  saveSegmentUpdate_def setStatus_def stringify_def)
  ultimately show ?thesis using h by blast
qed

subsection \<open>Zoom and scroll\<close>

lemma centerOnTime_finite:
  assumes D: "0 < totalDuration" and lo: "W / totalDuration \<le> zoom"
  shows "centerOnTime (Fin (c / totalDuration)) (Fin zoom) W totalDuration
           = Fin (max 0 (min (c * zoom - W / 2) (zoom * totalDuration - W)))"
    and "W \<le> zoom * totalDuration"
proof -
  show w: "W \<le> zoom * totalDuration"
    using D lo by (simp add: pos_divide_le_eq)
  have m: "c / totalDuration * (zoom * totalDuration) = c * zoom"
    using D by simp
  have x: "max 0 (zoom * totalDuration - W) = zoom * totalDuration - W"
    using w by simp
  show "centerOnTime (Fin (c / totalDuration)) (Fin zoom) W totalDuration
           = Fin (max 0 (min (c * zoom - W / 2) (zoom * totalDuration - W)))"
    by (simp only: centerOnTime_def Let_def js_mul.simps js_sub.simps js_max.simps js_min.simps m x)
qed

lemma zoomToSegment_calc_finite:
  fixes W :: real
  assumes D: "0 < totalDuration"
    and px: "js_min (Fin 500) (js_div (Fin W) (Fin ((localEnd - localStart) / 0.5))) = Fin p"
  shows "zoomToSegment_calc localStart localEnd totalDuration W =
           (Fin (max (W / totalDuration) p),
            Fin (max 0 (min ((localStart + localEnd) / 2 * max (W / totalDuration) p - W / 2)
                            (max (W / totalDuration) p * totalDuration - W))),
            Fin (localStart / totalDuration))"
proof -
  have t: "totalDuration \<noteq> 0" using D by simp
  have d: "js_div (Fin x) (Fin totalDuration) = Fin (x / totalDuration)" for x
    using t by simp
  have lo: "W / totalDuration \<le> max (W / totalDuration) p" by simp
  show ?thesis
    unfolding zoomToSegment_calc_def Let_def px d
    by (simp only: js_max.simps centerOnTime_finite(1)[OF D lo])
qed

text \<open>
  Claim C4, amended. In a recording of positive duration, the zoom and the scroll offset
  that \<open>zoomToSegment\<close> requests are given by the four numbers \<open>localStart\<close>, \<open>localEnd\<close>
  (the bounds of the segment relative to the chunk), \<open>totalDuration\<close> and the viewport
  width \<open>W\<close> alone. For a segment whose bounds differ, the zoom is
  \<open>max (W / totalDuration) (min 500 (W / (duration / 0.5)))\<close>: it is never below the
  fit-all zoom \<open>W / totalDuration\<close>, and it is at most \<open>500\<close>, hence in the range of the
  specification, exactly when the fit-all zoom is at most \<open>500\<close>; for a chunk shorter than
  \<open>W / 500\<close> seconds the zoom is the fit-all zoom, above \<open>500\<close>. The scroll offset is the
  pixel of the midpoint at that zoom minus half the viewport, clamped to
  \<open>[0, zoom * totalDuration - W]\<close>. For a segment of length zero in a viewport of
  positive width, the quotient is \<open>+Infinity\<close> and the zoom is
  \<open>max (W / totalDuration) 500\<close>, with the same scroll offset. The segment \<open>[10, 12]\<close> in
  \<open>100\<close> seconds with a viewport of \<open>1000\<close> pixels gives the zoom \<open>250\<close> and the scroll
  offset \<open>2250\<close>.
\<close>

theorem zoom_and_scroll_of_segment:
  assumes "0 < totalDuration"
  shows "(localStart \<noteq> localEnd \<longrightarrow>
           (\<exists>zoom scroll.
              zoomToSegment_calc localStart localEnd totalDuration W
                = (Fin zoom, Fin scroll, Fin (localStart / totalDuration))
              \<and> zoom = max (W / totalDuration) (min 500 (W / ((localEnd - localStart) / 0.5)))
              \<and> scroll = max 0 (min ((localStart + localEnd) / 2 * zoom - W / 2)
                                    (zoom * totalDuration - W))
              \<and> W / totalDuration \<le> zoom
              \<and> (zoom \<le> 500) = (W / totalDuration \<le> 500)
              \<and> spec_zoom_range W totalDuration (Fin zoom) = (W / totalDuration \<le> 500)
              \<and> 0 \<le> scroll \<and> scroll \<le> zoom * totalDuration - W
              \<and> (findIndex (\<lambda>s. id_eq (segment_id s) sid) (segments st) = Some i
                   \<and> currentChunk st = Some c
                   \<and> localStart = start_sec (segments st ! i) - chunk_start_time c
                   \<and> localEnd = end_sec (segments st ! i) - chunk_start_time c
                 \<longrightarrow> zoomToSegment totalDuration W sid st
                       = Zoomed (Fin zoom) (Fin scroll) (Fin (localStart / totalDuration)))))
       \<and> (localStart = localEnd \<and> 0 < W \<longrightarrow>
           (\<exists>zoom scroll.
              zoomToSegment_calc localStart localEnd totalDuration W
                = (Fin zoom, Fin scroll, Fin (localStart / totalDuration))
              \<and> zoom = max (W / totalDuration) 500
              \<and> scroll = max 0 (min (localStart * zoom - W / 2) (zoom * totalDuration - W))))
       \<and> zoomToSegment_calc 10 12 100 1000 = (Fin 250, Fin 2250, Fin (1 / 10))"
proof (intro conjI impI)
  assume ne: "localStart \<noteq> localEnd"
  let ?p = "min 500 (W / ((localEnd - localStart) / 0.5))"
  let ?zoom = "max (W / totalDuration) ?p"
  let ?scroll = "max 0 (min ((localStart + localEnd) / 2 * ?zoom - W / 2) (?zoom * totalDuration - W))"
  have v: "(localEnd - localStart) / 0.5 \<noteq> 0" using ne by simp
  have px: "js_min (Fin 500) (js_div (Fin W) (Fin ((localEnd - localStart) / 0.5))) = Fin ?p"
    using v by simp
  note cf = zoomToSegment_calc_finite[OF assms px]
  have lo: "W / totalDuration \<le> ?zoom" by simp
  have w: "W \<le> ?zoom * totalDuration"
    by (rule centerOnTime_finite(2)[OF assms lo])
  have up: "(?zoom \<le> 500) = (W / totalDuration \<le> 500)" by auto
  have rng: "spec_zoom_range W totalDuration (Fin ?zoom) = (W / totalDuration \<le> 500)"
    unfolding spec_zoom_range_def jsfloat.case using lo up by blast
  have s0: "0 \<le> ?scroll" by simp
  have s1: "?scroll \<le> ?zoom * totalDuration - W" using w by simp
  have zs: "findIndex (\<lambda>s. id_eq (segment_id s) sid) (segments st) = Some i
                   \<and> currentChunk st = Some c
                   \<and> localStart = start_sec (segments st ! i) - chunk_start_time c
                   \<and> localEnd = end_sec (segments st ! i) - chunk_start_time c
                 \<longrightarrow> zoomToSegment totalDuration W sid st
                       = Zoomed (Fin ?zoom) (Fin ?scroll) (Fin (localStart / totalDuration))"
    using cf by (auto simp add: zoomToSegment_def Let_def)
  from cf lo up rng s0 s1 zs
  show "\<exists>zoom scroll.
              zoomToSegment_calc localStart localEnd totalDuration W
                = (Fin zoom, Fin scroll, Fin (localStart / totalDuration))
              \<and> zoom = max (W / totalDuration) (min 500 (W / ((localEnd - localStart) / 0.5)))
              \<and> scroll = max 0 (min ((localStart + localEnd) / 2 * zoom - W / 2)
                                    (zoom * totalDuration - W))
              \<and> W / totalDuration \<le> zoom
              \<and> (zoom \<le> 500) = (W / totalDuration \<le> 500)
              \<and> spec_zoom_range W totalDuration (Fin zoom) = (W / totalDuration \<le> 500)
              \<and> 0 \<le> scroll \<and> scroll \<le> zoom * totalDuration - W
              \<and> (findIndex (\<lambda>s. id_eq (segment_id s) sid) (segments st) = Some i
                   \<and> currentChunk st = Some c
                   \<and> localStart = start_sec (segments st ! i) - chunk_start_time c
                   \<and> localEnd = end_sec (segments st ! i) - chunk_start_time c
                 \<longrightarrow> zoomToSegment totalDuration W sid st
                       = Zoomed (Fin zoom) (Fin scroll) (Fin (localStart / totalDuration)))"
    by blast
next
  assume a: "localStart = localEnd \<and> 0 < W"
  have px: "js_min (Fin 500) (js_div (Fin W) (Fin ((localEnd - localStart) / 0.5))) = Fin 500"
    using a by simp
  have c: "(localStart + localEnd) / 2 = localStart" using a by simp
  from zoomToSegment_calc_finite[OF assms px]
  show "\<exists>zoom scroll.
              zoomToSegment_calc localStart localEnd totalDuration W
                = (Fin zoom, Fin scroll, Fin (localStart / totalDuration))
              \<and> zoom = max (W / totalDuration) 500
              \<and> scroll = max 0 (min (localStart * zoom - W / 2) (zoom * totalDuration - W))"
    by (simp only: c) blast
next
  have px: "js_min (Fin 500) (js_div (Fin 1000) (Fin ((12 - 10) / 0.5))) = Fin 250"
    by simp
  have D: "(0::real) < 100" by simp
  from zoomToSegment_calc_finite[OF D px]
  show "zoomToSegment_calc 10 12 100 1000 = (Fin 250, Fin 2250, Fin (1 / 10))"
    by simp
qed

theorem zoom_and_scroll_of_segment_witness:
  "(0::real) < 100 \<and> (10::real) \<noteq> 12
   \<and> zoomToSegment_calc 10 12 100 1000 = (Fin 250, Fin 2250, Fin (1 / 10))
   \<and> zoomToSegment 100 1000 (Num 2) sample_state = Zoomed (Fin 250) (Fin 2250) (Fin (1 / 10))
   \<and> spec_zoom_range 1000 100 (Fin 250)
   \<and> (5::real) = 5 \<and> (0::real) < 1000
   \<and> zoomToSegment_calc 5 5 100 1000 = (Fin 500, Fin 2000, Fin (1 / 20))"
proof -
  have f: "findIndex (\<lambda>s. id_eq (segment_id s) (Num 2)) (segments sample_state) = Some 1
           \<and> currentChunk sample_state = Some sample_chunk
           \<and> (10::real) = start_sec (segments sample_state ! 1) - chunk_start_time sample_chunk
           \<and> (12::real) = end_sec (segments sample_state ! 1) - chunk_start_time sample_chunk"
    by (simp add: sample_state_def sample_chunk_def seg_a_def seg_b_def seg_c_def)
  have h: "(0::real) < 100" and ne: "(10::real) \<noteq> 12" and z: "(5::real) = 5 \<and> (0::real) < 1000"
    by simp_all
  note T = zoom_and_scroll_of_segment[OF h, where W = 1000 and sid = "Num 2"
             and st = sample_state and i = 1 and c = sample_chunk]
  from T[of 10 12] ne obtain zoom scroll where
    a: "zoomToSegment_calc 10 12 100 1000 = (Fin zoom, Fin scroll, Fin (10 / 100))"
       "spec_zoom_range 1000 100 (Fin zoom) = ((1000::real) / 100 \<le> 500)"
       "findIndex (\<lambda>s. id_eq (segment_id s) (Num 2)) (segments sample_state) = Some 1
           \<and> currentChunk sample_state = Some sample_chunk
           \<and> (10::real) = start_sec (segments sample_state ! 1) - chunk_start_time sample_chunk
           \<and> (12::real) = end_sec (segments sample_state ! 1) - chunk_start_time sample_chunk
        \<longrightarrow> zoomToSegment 100 1000 (Num 2) sample_state
              = Zoomed (Fin zoom) (Fin scroll) (Fin (10 / 100))"
    and e: "zoomToSegment_calc 10 12 100 1000 = (Fin 250, Fin 2250, Fin (1 / 10))"
    by blast
  from a(1) e have v: "zoom = 250" "scroll = 2250" by simp_all
  from T[of 5 5] z obtain zoom' scroll' where
    b: "zoomToSegment_calc 5 5 100 1000 = (Fin zoom', Fin scroll', Fin (5 / 100))"
       "zoom' = max ((1000::real) / 100) 500"
       "scroll' = max 0 (min (5 * zoom' - 1000 / 2) (zoom' * 100 - 1000))"
    by blast
  from b have "zoomToSegment_calc 5 5 100 1000 = (Fin 500, Fin 2000, Fin (1 / 20))"
    by simp
  with a f e v h ne show ?thesis by simp
qed

text \<open>
  A chunk of one second in a viewport of \<open>1000\<close> pixels, with the segment \<open>[0, 1]\<close>:
  \<open>Math.max(1000, Math.min(500, 500))\<close> is \<open>1000\<close>, which is not in \<open>[1000, 500]\<close>.
\<close>

theorem zoom_above_500_counterexample:
  "fst (zoomToSegment_calc 0 1 1 1000) = Fin 1000
   \<and> \<not> spec_zoom_range 1000 1 (fst (zoomToSegment_calc 0 1 1 1000))"
  by (simp add: zoomToSegment_calc_def spec_zoom_range_def Let_def)

end
